theory Spec2Isabelle
  imports Complex_Main "HOL-Library.Word" "HOL-Library.Signed_Division"
begin

section \<open>Data model of receipt-processor.go\<close>

text \<open>
  A Go \<open>string\<close> is a sequence of bytes; it is modelled as \<^typ>\<open>string\<close> (a list of
  8-bit characters), so that \<open>len\<close> is \<^const>\<open>length\<close> and counts bytes.
  Go's \<open>int\<close> is taken at its 64-bit width (two's complement, \<open>+\<close> and \<open>*\<close> wrap).
\<close>

type_synonym int64 = "64 word"

record Item =
  ShortDescription :: string
  Price :: string

record Receipt =
  Retailer :: string
  PurchaseDate :: string
  PurchaseTime :: string
  Items :: "Item list"
  Total :: string
  Points :: int64

section \<open>Package \<open>time\<close>: the two layouts the program parses\<close>

text \<open>
  \<open>time.Parse\<close> is called with the layouts \<open>"2006-01-02"\<close> and \<open>"15:04"\<close> only. A parsed
  value carries no zone, so it is in UTC; seconds and nanoseconds are always zero and are
  left out of the record. \<open>zeroTime\<close> is \<open>Time{}\<close>, January 1 of year 1 at 00:00 UTC, which
  \<open>time.Parse\<close> returns together with every error.
\<close>

record Time =
  year :: nat
  month :: nat
  day :: nat
  hour :: nat
  minute :: nat

definition zeroTime :: Time where
  "zeroTime = \<lparr>year = 1, month = 1, day = 1, hour = 0, minute = 0\<rparr>"

datatype ParseError = errBad | errRange | errExtraText

definition isDigit :: "string \<Rightarrow> nat \<Rightarrow> bool" where
  "isDigit s i = (i < length s \<and> 48 \<le> (of_char (s ! i) :: nat) \<and> (of_char (s ! i) :: nat) \<le> 57)"

definition digitVal :: "char \<Rightarrow> nat" where
  "digitVal c = of_char c - 48"

text \<open>\<open>getnum\<close>: one or two leading digits; exactly two when \<open>fixed\<close>.\<close>

definition getnum :: "string \<Rightarrow> bool \<Rightarrow> (nat \<times> string) option" where
  "getnum s fixed =
     (if \<not> isDigit s 0 then None
      else if \<not> isDigit s 1 then (if fixed then None else Some (digitVal (s ! 0), drop 1 s))
      else Some (digitVal (s ! 0) * 10 + digitVal (s ! 1), drop 2 s))"

text \<open>\<open>skip value prefix\<close> for a prefix without spaces (here always \<open>"-"\<close> or \<open>":"\<close>).\<close>

fun skip :: "string \<Rightarrow> string \<Rightarrow> string option" where
  "skip v [] = Some v"
| "skip [] (p # ps) = None"
| "skip (c # cs) (p # ps) = (if c = p then skip cs ps else None)"

text \<open>\<open>atoi\<close> on the four characters of a long year, the first of which is a digit.\<close>

fun atoi :: "string \<Rightarrow> nat \<Rightarrow> nat option" where
  "atoi [] acc = Some acc"
| "atoi (c # cs) acc = (if isDigit [c] 0 then atoi cs (acc * 10 + digitVal c) else None)"

definition isLeap :: "nat \<Rightarrow> bool" where
  "isLeap y = (y mod 4 = 0 \<and> (y mod 100 \<noteq> 0 \<or> y mod 400 = 0))"

definition daysIn :: "nat \<Rightarrow> nat \<Rightarrow> nat" where
  "daysIn m y =
     (if m = 2 then (if isLeap y then 29 else 28)
      else if m = 4 \<or> m = 6 \<or> m = 9 \<or> m = 11 then 30 else 31)"

text \<open>\<open>time.Date\<close> with every field in range (no normalisation takes place).\<close>

definition Date :: "nat \<Rightarrow> nat \<Rightarrow> nat \<Rightarrow> nat \<Rightarrow> nat \<Rightarrow> Time" where
  "Date y m d h mi = \<lparr>year = y, month = m, day = d, hour = h, minute = mi\<rparr>"

text \<open>
  \<open>time.Parse("2006-01-02", value)\<close>: a four-digit year, \<open>-\<close>, a two-digit month in
  1..12, \<open>-\<close>, a two-digit day, nothing after it; the day is checked against the month
  and the year once the whole value is read.
\<close>

definition parseDate :: "string \<Rightarrow> ParseError + Time" where
  "parseDate v0 =
     (if length v0 < 4 \<or> \<not> isDigit v0 0 then Inl errBad
      else case atoi (take 4 v0) 0 of None \<Rightarrow> Inl errBad | Some y \<Rightarrow>
       (case skip (drop 4 v0) ''-'' of None \<Rightarrow> Inl errBad | Some v1 \<Rightarrow>
        (case getnum v1 True of None \<Rightarrow> Inl errBad | Some (m, v2) \<Rightarrow>
          if m \<le> 0 \<or> 12 < m then Inl errRange
          else (case skip v2 ''-'' of None \<Rightarrow> Inl errBad | Some v3 \<Rightarrow>
           (case getnum v3 True of None \<Rightarrow> Inl errBad | Some (d, v4) \<Rightarrow>
             if v4 \<noteq> [] then Inl errExtraText
             else if d < 1 \<or> d > daysIn m y then Inl errRange
             else Inr (Date y m d 0 0))))))"

text \<open>
  \<open>time.Parse("15:04", value)\<close>: an hour of one or two digits below 24, \<open>:\<close>, a
  two-digit minute below 60, nothing after it. The date fields default to January 1 of
  year 0.
\<close>

definition parseClock :: "string \<Rightarrow> ParseError + Time" where
  "parseClock v0 =
     (case getnum v0 False of None \<Rightarrow> Inl errBad | Some (h, v1) \<Rightarrow>
       if 24 \<le> h then Inl errRange
       else (case skip v1 '':'' of None \<Rightarrow> Inl errBad | Some v2 \<Rightarrow>
        (case getnum v2 True of None \<Rightarrow> Inl errBad | Some (mi, v3) \<Rightarrow>
          if 60 \<le> mi then Inl errRange
          else if v3 \<noteq> [] then Inl errExtraText
          else Inr (Date 0 1 1 h mi))))"

text \<open>
  \<open>time.Parse(layout, value)\<close> returns the pair \<open>(Time, error)\<close>, the zero time with
  every error. Only the two layouts of the program are modelled; any other layout is
  answered here with \<open>errBad\<close> and is never used.
\<close>

definition time_Parse :: "string \<Rightarrow> string \<Rightarrow> Time \<times> ParseError option" where
  "time_Parse layout v =
     (case (if layout = ''2006-01-02'' then parseDate v
            else if layout = ''15:04'' then parseClock v
            else Inl errBad) of
        Inl e \<Rightarrow> (zeroTime, Some e)
      | Inr t \<Rightarrow> (t, None))"

text \<open>\<open>t.Before(u)\<close> and \<open>t.After(u)\<close> on UTC times with normalised fields.\<close>

definition Before :: "Time \<Rightarrow> Time \<Rightarrow> bool" where
  "Before t u =
     (year t < year u \<or> (year t = year u \<and>
       (month t < month u \<or> (month t = month u \<and>
         (day t < day u \<or> (day t = day u \<and>
           (hour t < hour u \<or> (hour t = hour u \<and> minute t < minute u))))))))"

definition After :: "Time \<Rightarrow> Time \<Rightarrow> bool" where
  "After t u = Before u t"

section \<open>Packages \<open>unicode/utf8\<close>, \<open>unicode\<close> and \<open>strings\<close>\<close>

text \<open>
  A rune is a Unicode code point, a natural number. \<open>decodeRune\<close> is
  \<open>utf8.DecodeRuneInString\<close> on a non-empty string: the rune at its head and the number
  of bytes of its encoding; a byte that starts no well-formed shortest encoding of a code
  point other than a surrogate decodes to U+FFFD with width 1.
\<close>

definition RuneError :: nat where
  "RuneError = 0xFFFD"

definition byteAt :: "string \<Rightarrow> nat \<Rightarrow> nat" where
  "byteAt s i = (if i < length s then of_char (s ! i) else 0)"

definition contIn :: "string \<Rightarrow> nat \<Rightarrow> nat \<Rightarrow> nat \<Rightarrow> bool" where
  "contIn s i lo hi = (i < length s \<and> lo \<le> byteAt s i \<and> byteAt s i \<le> hi)"

definition decodeRune :: "string \<Rightarrow> nat \<times> nat" where
  "decodeRune s =
     (let b0 = byteAt s 0; b1 = byteAt s 1; b2 = byteAt s 2; b3 = byteAt s 3 in
      if b0 < 0x80 then (b0, 1)
      else if 0xC2 \<le> b0 \<and> b0 \<le> 0xDF then
        (if contIn s 1 0x80 0xBF then ((b0 mod 32) * 64 + b1 mod 64, 2) else (RuneError, 1))
      else if 0xE0 \<le> b0 \<and> b0 \<le> 0xEF then
        (if contIn s 1 (if b0 = 0xE0 then 0xA0 else 0x80) (if b0 = 0xED then 0x9F else 0xBF)
            \<and> contIn s 2 0x80 0xBF
         then ((b0 mod 16) * 4096 + (b1 mod 64) * 64 + b2 mod 64, 3) else (RuneError, 1))
      else if 0xF0 \<le> b0 \<and> b0 \<le> 0xF4 then
        (if contIn s 1 (if b0 = 0xF0 then 0x90 else 0x80) (if b0 = 0xF4 then 0x8F else 0xBF)
            \<and> contIn s 2 0x80 0xBF \<and> contIn s 3 0x80 0xBF
         then ((b0 mod 8) * 262144 + (b1 mod 64) * 4096 + (b2 mod 64) * 64 + b3 mod 64, 4)
         else (RuneError, 1))
      else (RuneError, 1))"

text \<open>\<open>for _, char := range s\<close>: the runes of \<open>s\<close> in order.\<close>

function rangeRunes :: "string \<Rightarrow> nat list" where
  "rangeRunes s = (if s = [] then [] else fst (decodeRune s) # rangeRunes (drop (snd (decodeRune s)) s))"
  by pat_completeness auto
termination
  by (relation "measure length") (auto simp: decodeRune_def Let_def)

declare rangeRunes.simps [simp del]

text \<open>\<open>string(char)\<close>: the UTF-8 encoding of a rune, that of U+FFFD for an invalid one.\<close>

definition encodeRune :: "nat \<Rightarrow> string" where
  "encodeRune r =
     (if r < 0x80 then [char_of r]
      else if r < 0x800 then [char_of (0xC0 + r div 64), char_of (0x80 + r mod 64)]
      else if 0x10FFFF < r \<or> (0xD800 \<le> r \<and> r \<le> 0xDFFF) then [char_of (0xEF :: nat), char_of (0xBF :: nat), char_of (0xBD :: nat)]
      else if r < 0x10000 then
        [char_of (0xE0 + r div 4096), char_of (0x80 + (r div 64) mod 64), char_of (0x80 + r mod 64)]
      else
        [char_of (0xF0 + r div 262144), char_of (0x80 + (r div 4096) mod 64),
         char_of (0x80 + (r div 64) mod 64), char_of (0x80 + r mod 64)])"

text \<open>
  A range table is a sorted list of \<open>(Lo, Hi, Stride)\<close> entries; \<open>inRanges\<close> is the linear
  search of \<open>unicode.is16\<close> and \<open>unicode.is32\<close>. The tables \<open>unicode.Letter\<close> and
  \<open>unicode.Digit\<close> are data of the Go distribution, not of this repository: the model
  takes their entries above Latin-1 as parameters. Runes up to U+00FF are decided by the
  fixed Latin-1 properties, as in \<open>unicode.IsLetter\<close> and \<open>unicode.IsDigit\<close>.
\<close>

type_synonym RangeTable = "(nat \<times> nat \<times> nat) list"

fun inRanges :: "RangeTable \<Rightarrow> nat \<Rightarrow> bool" where
  "inRanges [] r = False"
| "inRanges ((lo, hi, stride) # ranges) r =
     (if r < lo then False
      else if r \<le> hi then (stride = 1 \<or> (r - lo) mod stride = 0)
      else inRanges ranges r)"

definition MaxLatin1 :: nat where
  "MaxLatin1 = 0xFF"

definition latin1Letter :: "nat \<Rightarrow> bool" where
  "latin1Letter r =
     ((0x41 \<le> r \<and> r \<le> 0x5A) \<or> (0x61 \<le> r \<and> r \<le> 0x7A) \<or> r = 0xAA \<or> r = 0xB5 \<or> r = 0xBA
      \<or> (0xC0 \<le> r \<and> r \<le> 0xD6) \<or> (0xD8 \<le> r \<and> r \<le> 0xF6) \<or> (0xF8 \<le> r \<and> r \<le> 0xFF))"

definition IsLetter :: "RangeTable \<Rightarrow> nat \<Rightarrow> bool" where
  "IsLetter Letter r = (if r \<le> MaxLatin1 then latin1Letter r else inRanges Letter r)"

definition IsDigit :: "RangeTable \<Rightarrow> nat \<Rightarrow> bool" where
  "IsDigit Digit r = (if r \<le> MaxLatin1 then 0x30 \<le> r \<and> r \<le> 0x39 else inRanges Digit r)"

text \<open>\<open>unicode.White_Space\<close> above Latin-1, and \<open>unicode.IsSpace\<close>.\<close>

definition White_Space :: RangeTable where
  "White_Space =
     [(0x1680, 0x1680, 1), (0x2000, 0x200A, 1), (0x2028, 0x2029, 1), (0x202F, 0x202F, 1),
      (0x205F, 0x205F, 1), (0x3000, 0x3000, 1)]"

definition IsSpace :: "nat \<Rightarrow> bool" where
  "IsSpace r =
     (if r \<le> MaxLatin1
      then r = 0x09 \<or> r = 0x0A \<or> r = 0x0B \<or> r = 0x0C \<or> r = 0x0D \<or> r = 0x20 \<or> r = 0x85 \<or> r = 0xA0
      else inRanges White_Space r)"

text \<open>
  \<open>utf8.DecodeLastRuneInString\<close>: the last rune of a string and its width, found by
  stepping back at most four bytes to a byte that can start an encoding.
\<close>

definition RuneStart :: "nat \<Rightarrow> bool" where
  "RuneStart b = (b div 64 \<noteq> 2)"

definition lastRuneStart :: "string \<Rightarrow> nat" where
  "lastRuneStart s =
     (let e = length s in
      if 2 \<le> e \<and> RuneStart (byteAt s (e - 2)) then e - 2
      else if 3 \<le> e \<and> RuneStart (byteAt s (e - 3)) then e - 3
      else if 4 \<le> e \<and> RuneStart (byteAt s (e - 4)) then e - 4
      else e - 5)"

definition decodeLastRune :: "string \<Rightarrow> nat \<times> nat" where
  "decodeLastRune s =
     (if s = [] then (RuneError, 0)
      else if byteAt s (length s - 1) < 0x80 then (byteAt s (length s - 1), 1)
      else let start = lastRuneStart s; rs = decodeRune (drop start s) in
        if start + snd rs \<noteq> length s then (RuneError, 1) else rs)"

text \<open>
  \<open>strings.TrimSpace\<close>: leading white space is removed rune by rune from the front
  (\<open>TrimLeftFunc\<close>), trailing white space from the back (\<open>TrimRightFunc\<close>).
\<close>

function trimLeft :: "string \<Rightarrow> string" where
  "trimLeft s =
     (if s = [] then []
      else if IsSpace (fst (decodeRune s)) then trimLeft (drop (snd (decodeRune s)) s) else s)"
  by pat_completeness auto
termination
  by (relation "measure length") (auto simp: decodeRune_def Let_def)

declare trimLeft.simps [simp del]

function trimRight :: "string \<Rightarrow> string" where
  "trimRight s =
     (if s = [] then []
      else if IsSpace (fst (decodeLastRune s))
        then trimRight (take (length s - snd (decodeLastRune s)) s) else s)"
  by pat_completeness auto
termination
proof (relation "measure length")
  show "wf (measure length)" by simp
next
  fix s :: string
  assume nonempty: "s \<noteq> []" and "IsSpace (fst (decodeLastRune s))"
  have "1 \<le> snd (decodeRune (drop (lastRuneStart s) s))"
    by (simp add: decodeRune_def Let_def)
  with nonempty have "1 \<le> snd (decodeLastRune s)"
    by (simp add: decodeLastRune_def Let_def)
  with nonempty show "(take (length s - snd (decodeLastRune s)) s, s) \<in> measure length"
    by (cases s) auto
qed

declare trimRight.simps [simp del]

definition TrimSpace :: "string \<Rightarrow> string" where
  "TrimSpace s = trimRight (trimLeft s)"

text \<open>\<open>strings.Split(s, sep)\<close> for a separator of one byte, and \<open>strings.HasSuffix\<close>.\<close>

fun Split :: "string \<Rightarrow> char \<Rightarrow> string list" where
  "Split [] sep = [[]]"
| "Split (c # cs) sep =
     (if c = sep then [] # Split cs sep
      else (case Split cs sep of [] \<Rightarrow> [[c]] | p # ps \<Rightarrow> (c # p) # ps))"

definition HasSuffix :: "string \<Rightarrow> string \<Rightarrow> bool" where
  "HasSuffix s suffix =
     (length suffix \<le> length s \<and> drop (length s - length suffix) s = suffix)"

section \<open>The type \<open>float64\<close>\<close>

text \<open>
  An IEEE 754 binary64 value is a finite number, an infinity or a NaN. A finite value is
  kept as the exact rational it denotes; the two zeros are one value, since the program
  only multiplies, takes \<open>math.Ceil\<close>, compares with \<open>==\<close> and converts to \<open>int\<close>, and none
  of these tells \<open>-0\<close> from \<open>0\<close>. Every operation computes exactly and rounds to the nearest
  binary64 value, ties to the even significand.
\<close>

datatype float64 = Finite rat | PosInf | NegInf | NaN

text \<open>\<open>bitlen n\<close> is the number of binary digits of a positive integer, 0 otherwise.\<close>

function bitlen :: "int \<Rightarrow> int" where
  "bitlen n = (if n \<le> 0 then 0 else 1 + bitlen (n div 2))"
  by pat_completeness auto
termination
  by (relation "measure nat") auto

declare bitlen.simps [simp del]

text \<open>\<open>ilog2 n d\<close> is the integer part of the binary logarithm of \<open>n / d\<close> for positive \<open>n\<close>, \<open>d\<close>.\<close>

definition ilog2 :: "int \<Rightarrow> int \<Rightarrow> int" where
  "ilog2 n d =
     (let e0 = bitlen n - bitlen d in
      if (if 0 \<le> e0 then d * 2 ^ nat e0 \<le> n else d \<le> n * 2 ^ nat (- e0)) then e0 else e0 - 1)"

text \<open>\<open>n / d\<close> (both positive) rounded to the nearest integer, a tie to the even one.\<close>

definition roundEven :: "int \<Rightarrow> int \<Rightarrow> int" where
  "roundEven n d =
     (let q = n div d; r = n mod d in
      if 2 * r < d then q else if d < 2 * r then q + 1 else if even q then q else q + 1)"

text \<open>
  Rounding of a positive rational \<open>n / d\<close> to binary64: 53 significant bits, least
  exponent \<open>-1022\<close> (below it the spacing stays \<open>2 ^ -1074\<close>), overflow to infinity from
  \<open>2 ^ 1024\<close> on. \<open>e\<close> is the exponent of the spacing and \<open>m\<close> the integer significand.
\<close>

definition roundPos :: "int \<Rightarrow> int \<Rightarrow> float64" where
  "roundPos n d =
     (let e = max (ilog2 n d) (- 1022) - 52;
          m = (if 0 \<le> e then roundEven n (d * 2 ^ nat e) else roundEven (n * 2 ^ nat (- e)) d)
      in if 0 \<le> e \<and> 2 ^ 1024 \<le> m * 2 ^ nat e then PosInf
         else if 0 \<le> e then Finite (of_int (m * 2 ^ nat e))
         else Finite (of_int m / of_int (2 ^ nat (- e))))"

definition neg64 :: "float64 \<Rightarrow> float64" where
  "neg64 a = (case a of Finite x \<Rightarrow> Finite (- x) | PosInf \<Rightarrow> NegInf | NegInf \<Rightarrow> PosInf | NaN \<Rightarrow> NaN)"

definition round64 :: "rat \<Rightarrow> float64" where
  "round64 x =
     (if x = 0 then Finite 0
      else if 0 < x then roundPos (fst (quotient_of x)) (snd (quotient_of x))
      else neg64 (roundPos (fst (quotient_of (- x))) (snd (quotient_of (- x)))))"

text \<open>The product \<open>a * b\<close> of two \<open>float64\<close> values.\<close>

definition isNaN :: "float64 \<Rightarrow> bool" where
  "isNaN a = (case a of NaN \<Rightarrow> True | _ \<Rightarrow> False)"

definition signOf :: "float64 \<Rightarrow> int" where
  "signOf a = (case a of Finite x \<Rightarrow> (if 0 < x then 1 else if x < 0 then - 1 else 0)
                | PosInf \<Rightarrow> 1 | NegInf \<Rightarrow> - 1 | NaN \<Rightarrow> 0)"

definition mul64 :: "float64 \<Rightarrow> float64 \<Rightarrow> float64" where
  "mul64 a b =
     (case (a, b) of
        (Finite x, Finite y) \<Rightarrow> round64 (x * y)
      | _ \<Rightarrow> if isNaN a \<or> isNaN b \<or> signOf a * signOf b = 0 then NaN
             else if 0 < signOf a * signOf b then PosInf else NegInf)"

text \<open>The comparison \<open>a == b\<close>: a NaN equals nothing.\<close>

definition eq64 :: "float64 \<Rightarrow> float64 \<Rightarrow> bool" where
  "eq64 a b = (\<not> isNaN a \<and> \<not> isNaN b \<and> a = b)"

definition Ceil :: "float64 \<Rightarrow> float64" where
  "Ceil a = (case a of Finite x \<Rightarrow> Finite (of_int \<lceil>x\<rceil>) | _ \<Rightarrow> a)"

text \<open>
  The conversion \<open>int(f)\<close> discards the fraction (truncation towards zero). When the
  result does not fit 64 bits, or \<open>f\<close> is an infinity or a NaN, the language leaves the
  value to the implementation: it is the parameter \<open>conv\<close>.
  \<open>float64(n)\<close> rounds the integer to binary64.
\<close>

definition toInt :: "(float64 \<Rightarrow> int64) \<Rightarrow> float64 \<Rightarrow> int64" where
  "toInt conv f =
     (case f of
        Finite x \<Rightarrow>
          (let t = (if 0 \<le> x then \<lfloor>x\<rfloor> else \<lceil>x\<rceil>) in
           if - (2 ^ 63) \<le> t \<and> t < 2 ^ 63 then word_of_int t else conv f)
      | _ \<Rightarrow> conv f)"

definition fromInt :: "int64 \<Rightarrow> float64" where
  "fromInt n = round64 (of_int (sint n))"

section \<open>\<open>strconv.ParseFloat\<close> at 64 bits\<close>

text \<open>
  \<open>ParseFloat\<close> accepts an optional sign followed by \<open>inf\<close>, \<open>infinity\<close> (any case) or an
  unsigned \<open>nan\<close>, a decimal literal (digits with an optional point and an optional
  exponent \<open>e\<close>) or a hexadecimal one (\<open>0x\<close>, hexadecimal digits, a mandatory binary
  exponent \<open>p\<close>); underscores may separate digits. A well-formed literal is rounded to
  the nearest binary64 value; one beyond the largest finite value gives an infinity and
  \<open>ErrRange\<close>; anything else gives \<open>0\<close> and \<open>ErrSyntax\<close>.
\<close>

datatype NumError = ErrSyntax | ErrRange

text \<open>\<open>lower(c)\<close> is \<open>c | ('x' - 'X')\<close>: the byte with bit 5 set.\<close>

definition lower :: "char \<Rightarrow> nat" where
  "lower c = (if (of_char c div 32) mod 2 = (0 :: nat) then of_char c + 32 else of_char c)"

fun commonPrefixLenIgnoreCase :: "string \<Rightarrow> string \<Rightarrow> nat" where
  "commonPrefixLenIgnoreCase [] prefix = 0"
| "commonPrefixLenIgnoreCase (c # s) [] = 0"
| "commonPrefixLenIgnoreCase (c # s) (p # prefix) =
     (if (if 65 \<le> (of_char c :: nat) \<and> (of_char c :: nat) \<le> 90 then of_char c + 32 else of_char c)
          = (of_char p :: nat)
      then 1 + commonPrefixLenIgnoreCase s prefix else 0)"

definition infinityPrefix :: "bool \<Rightarrow> nat \<Rightarrow> string \<Rightarrow> (float64 \<times> nat) option" where
  "infinityPrefix neg nsign s =
     (let n0 = commonPrefixLenIgnoreCase s ''infinity''; n = (if 3 < n0 \<and> n0 < 8 then 3 else n0) in
      if n = 3 \<or> n = 8 then Some (if neg then NegInf else PosInf, nsign + n) else None)"

definition special :: "string \<Rightarrow> (float64 \<times> nat) option" where
  "special s =
     (case s of
        [] \<Rightarrow> None
      | c # rest \<Rightarrow>
          if c = CHR ''+'' \<or> c = CHR ''-'' then infinityPrefix (c = CHR ''-'') 1 rest
          else if c = CHR ''i'' \<or> c = CHR ''I'' then infinityPrefix False 0 s
          else if c = CHR ''n'' \<or> c = CHR ''N'' then
            (if commonPrefixLenIgnoreCase s ''nan'' = 3 then Some (NaN, 3) else None)
          else None)"

text \<open>
  The mantissa loop of \<open>readFloat\<close>. The model keeps every digit of the mantissa (the
  source keeps 19 and falls back to its exact decimal conversion when digits were cut),
  so \<open>nd\<close> is also the number of mantissa digits.
\<close>

record scan =
  mantissa :: int
  nd :: int
  dp :: int
  sawdot :: bool
  sawdigits :: bool
  underscores :: bool

definition isHexLetter :: "char \<Rightarrow> bool" where
  "isHexLetter c = (97 \<le> lower c \<and> lower c \<le> 102)"

fun scanMantissa :: "bool \<Rightarrow> string \<Rightarrow> scan \<Rightarrow> scan \<times> string" where
  "scanMantissa hex [] st = (st, [])"
| "scanMantissa hex (c # cs) st =
     (if c = CHR ''_'' then scanMantissa hex cs (st\<lparr>underscores := True\<rparr>)
      else if c = CHR ''.'' then
        (if sawdot st then (st, c # cs) else scanMantissa hex cs (st\<lparr>sawdot := True, dp := nd st\<rparr>))
      else if isDigit [c] 0 then
        (if c = CHR ''0'' \<and> nd st = 0 then scanMantissa hex cs (st\<lparr>sawdigits := True, dp := dp st - 1\<rparr>)
         else scanMantissa hex cs
           (st\<lparr>sawdigits := True, nd := nd st + 1,
               mantissa := mantissa st * (if hex then 16 else 10) + int (digitVal c)\<rparr>))
      else if hex \<and> isHexLetter c then
        scanMantissa hex cs
          (st\<lparr>sawdigits := True, nd := nd st + 1, mantissa := mantissa st * 16 + int (lower c - 97 + 10)\<rparr>)
      else (st, c # cs))"

text \<open>The digits of the exponent; the value stops growing once it has reached 10000.\<close>

fun scanExp :: "string \<Rightarrow> int \<Rightarrow> bool \<Rightarrow> int \<times> bool \<times> string" where
  "scanExp [] e us = (e, us, [])"
| "scanExp (c # cs) e us =
     (if c = CHR ''_'' then scanExp cs e True
      else if isDigit [c] 0 then scanExp cs (if e < 10000 then e * 10 + int (digitVal c) else e) us
      else (e, us, c # cs))"

fun underscoreLoop :: "bool \<Rightarrow> string \<Rightarrow> char \<Rightarrow> bool" where
  "underscoreLoop hex [] saw = (saw \<noteq> CHR ''_'')"
| "underscoreLoop hex (c # cs) saw =
     (if isDigit [c] 0 \<or> (hex \<and> isHexLetter c) then underscoreLoop hex cs (CHR ''0'')
      else if c = CHR ''_'' then (if saw \<noteq> CHR ''0'' then False else underscoreLoop hex cs (CHR ''_''))
      else if saw = CHR ''_'' then False
      else underscoreLoop hex cs (CHR ''!''))"

definition underscoreOK :: "string \<Rightarrow> bool" where
  "underscoreOK s0 =
     (let s = (if s0 \<noteq> [] \<and> (hd s0 = CHR ''-'' \<or> hd s0 = CHR ''+'') then tl s0 else s0);
          prefix = (2 \<le> length s \<and> s ! 0 = CHR ''0''
                    \<and> (lower (s ! 1) = 98 \<or> lower (s ! 1) = 111 \<or> lower (s ! 1) = 120));
          hex = (prefix \<and> lower (s ! 1) = 120)
      in underscoreLoop hex (if prefix then drop 2 s else s) (if prefix then CHR ''0'' else CHR ''^''))"

text \<open>
  \<open>readFloat\<close>: mantissa, exponent (decimal, or binary for a hexadecimal literal), sign,
  base and the unread rest of the string; \<open>None\<close> when no literal starts the string.
\<close>

definition finishRead ::
  "string \<Rightarrow> bool \<Rightarrow> bool \<Rightarrow> scan \<Rightarrow> int \<Rightarrow> bool \<Rightarrow> string \<Rightarrow> (int \<times> int \<times> bool \<times> bool \<times> string) option" where
  "finishRead s neg hex st dp' us rest =
     (let ndMant = (if hex then nd st * 4 else nd st);
          ex = (if mantissa st \<noteq> 0 then dp' - ndMant else 0)
      in if us \<and> \<not> underscoreOK (take (length s - length rest) s) then None
         else Some (mantissa st, ex, neg, hex, rest))"

definition readFloat :: "string \<Rightarrow> (int \<times> int \<times> bool \<times> bool \<times> string) option" where
  "readFloat s =
     (if s = [] then None
      else
        let neg = (hd s = CHR ''-'');
            s1 = (if hd s = CHR ''+'' \<or> hd s = CHR ''-'' then tl s else s);
            hex = (2 < length s1 \<and> s1 ! 0 = CHR ''0'' \<and> lower (s1 ! 1) = 120);
            s2 = (if hex then drop 2 s1 else s1);
            st = fst (scanMantissa hex s2
                   \<lparr>mantissa = 0, nd = 0, dp = 0, sawdot = False, sawdigits = False, underscores = False\<rparr>);
            s3 = snd (scanMantissa hex s2
                   \<lparr>mantissa = 0, nd = 0, dp = 0, sawdot = False, sawdigits = False, underscores = False\<rparr>)
        in if \<not> sawdigits st then None
           else
             let dp1 = (if sawdot st then dp st else nd st);
                 dp2 = (if hex then dp1 * 4 else dp1)
             in if s3 \<noteq> [] \<and> lower (hd s3) = (if hex then 112 else 101) then
                  (let s4 = tl s3 in
                   if s4 = [] then None
                   else
                     let esign = (if hd s4 = CHR ''-'' then - 1 else 1);
                         s5 = (if hd s4 = CHR ''+'' \<or> hd s4 = CHR ''-'' then tl s4 else s4)
                     in if \<not> isDigit s5 0 then None
                        else (case scanExp s5 0 (underscores st) of
                                (e, us, s6) \<Rightarrow> finishRead s neg hex st (dp2 + e * esign) us s6))
                else if hex then None
                else finishRead s neg hex st dp2 (underscores st) s3)"

text \<open>The exact value \<open>mantissa * base ^ ex\<close> of a literal.\<close>

definition literalValue :: "int \<Rightarrow> int \<Rightarrow> bool \<Rightarrow> bool \<Rightarrow> rat" where
  "literalValue mant ex neg hex =
     (let b = (if hex then 2 else 10);
          v = (if 0 \<le> ex then of_int (mant * b ^ nat ex) else of_int mant / of_int (b ^ nat (- ex)))
      in if neg then - v else v)"

text \<open>\<open>atof64\<close>: the value, the number of bytes read and the error.\<close>

definition isInf :: "float64 \<Rightarrow> bool" where
  "isInf a = (case a of PosInf \<Rightarrow> True | NegInf \<Rightarrow> True | _ \<Rightarrow> False)"

definition atof64 :: "string \<Rightarrow> float64 \<times> nat \<times> NumError option" where
  "atof64 s =
     (case special s of
        Some (val, n) \<Rightarrow> (val, n, None)
      | None \<Rightarrow>
         (case readFloat s of
            None \<Rightarrow> (Finite 0, 0, Some ErrSyntax)
          | Some (mant, ex, neg, hex, rest) \<Rightarrow>
              (let f = round64 (literalValue mant ex neg hex) in
               (f, length s - length rest, if isInf f then Some ErrRange else None))))"

definition ParseFloat :: "string \<Rightarrow> float64 \<times> NumError option" where
  "ParseFloat s =
     (case atof64 s of
        (f, n, err) \<Rightarrow>
          if n \<noteq> length s \<and> err \<noteq> Some ErrSyntax then (Finite 0, Some ErrSyntax) else (f, err))"

section \<open>The points engine: \<open>calculatePoints\<close>\<close>

text \<open>
  What the Go distribution and the target architecture fix, and this repository does
  not: the range tables \<open>unicode.Letter\<close> and \<open>unicode.Digit\<close> above Latin-1, and the
  value of \<open>int(f)\<close> for a \<open>float64\<close> that no \<open>int\<close> represents.
\<close>

record platform =
  Letter :: RangeTable
  Digit :: RangeTable
  conv :: "float64 \<Rightarrow> int64"

text \<open>
  An instance for closed examples: \<open>GOARCH=amd64\<close>, where the conversion instruction
  yields the least \<open>int64\<close> for every value out of range; the range tables are left
  empty, which decides every rune up to U+00FF as the Go tables do.
\<close>

definition amd64 :: platform where
  "amd64 = \<lparr>Letter = [], Digit = [], conv = (\<lambda>f. 0x8000000000000000)\<rparr>"

text \<open>
  Rule 1. The loop appends the encoding of every rune of the retailer name that is a
  letter or a digit to \<open>alphanumericRetailer\<close>; \<open>len\<close> of that string is added.
\<close>

fun retailerLoop :: "platform \<Rightarrow> nat list \<Rightarrow> string \<Rightarrow> string" where
  "retailerLoop P [] alphanumericRetailer = alphanumericRetailer"
| "retailerLoop P (char # rest) alphanumericRetailer =
     retailerLoop P rest
       (if IsLetter (Letter P) char \<or> IsDigit (Digit P) char
        then alphanumericRetailer @ encodeRune char else alphanumericRetailer)"

definition rule1 :: "platform \<Rightarrow> Receipt \<Rightarrow> int64" where
  "rule1 P receipt = of_nat (length (retailerLoop P (rangeRunes (Retailer receipt)) []))"

text \<open>Rule 2: \<open>total == float64(int(total))\<close>; the error of \<open>ParseFloat\<close> is dropped.\<close>

definition rule2 :: "platform \<Rightarrow> Receipt \<Rightarrow> int64" where
  "rule2 P receipt =
     (let total = fst (ParseFloat (Total receipt))
      in if eq64 total (fromInt (toInt (conv P) total)) then 50 else 0)"

text \<open>Rule 3: \<open>int(total*100)%25 == 0\<close>, with the remainder of truncated division.\<close>

definition rule3 :: "platform \<Rightarrow> Receipt \<Rightarrow> int64" where
  "rule3 P receipt =
     (let total = fst (ParseFloat (Total receipt))
      in if sint (toInt (conv P) (mul64 total (Finite 100))) smod 25 = 0 then 25 else 0)"

text \<open>Rule 4: \<open>pairCount * 5\<close> with \<open>pairCount := itemCount / 2\<close>.\<close>

definition rule4 :: "Receipt \<Rightarrow> int64" where
  "rule4 receipt =
     (let itemCount = (of_nat (length (Items receipt)) :: int64);
          pairCount = (word_of_int (sint itemCount sdiv 2) :: int64)
      in pairCount * 5)"

text \<open>
  Rule 5. \<open>itemPoints\<close> of one item is \<open>int(math.Ceil(price * 0.2))\<close>, where \<open>0.2\<close> is the
  constant rounded to binary64; the loop adds it when the byte length of the trimmed
  description is a multiple of 3 and \<open>itemPoints > 0\<close>.
\<close>

definition itemPoints :: "platform \<Rightarrow> Item \<Rightarrow> int64" where
  "itemPoints P item =
     (let price = fst (ParseFloat (Price item))
      in toInt (conv P) (Ceil (mul64 price (round64 (2 / 10)))))"

fun itemsLoop :: "platform \<Rightarrow> Item list \<Rightarrow> int64 \<Rightarrow> int64" where
  "itemsLoop P [] points = points"
| "itemsLoop P (item # items) points =
     itemsLoop P items
       (let trimmedLength = length (TrimSpace (ShortDescription item)) in
        if trimmedLength mod 3 = 0
        then (if 0 <s itemPoints P item then points + itemPoints P item else points)
        else points)"

definition rule5 :: "platform \<Rightarrow> Receipt \<Rightarrow> int64" where
  "rule5 P receipt = itemsLoop P (Items receipt) 0"

text \<open>Rule 6: the error of \<open>time.Parse\<close> is dropped and \<open>Day()\<close> of the result is tested.\<close>

definition rule6 :: "Receipt \<Rightarrow> int64" where
  "rule6 receipt =
     (let purchaseDate = fst (time_Parse ''2006-01-02'' (PurchaseDate receipt))
      in if day purchaseDate mod 2 \<noteq> 0 then 6 else 0)"

text \<open>Rule 7: strictly after 14:00 and strictly before 16:00 of the parsed value's own day.\<close>

definition rule7 :: "Receipt \<Rightarrow> int64" where
  "rule7 receipt =
     (let purchaseTime = fst (time_Parse ''15:04'' (PurchaseTime receipt))
      in if After purchaseTime (Date (year purchaseTime) (month purchaseTime) (day purchaseTime) 14 0)
          \<and> Before purchaseTime (Date (year purchaseTime) (month purchaseTime) (day purchaseTime) 16 0)
         then 10 else 0)"

text \<open>
  \<open>calculatePoints\<close> runs the seven rules in order on the local \<open>points\<close>, which starts
  at 0, and stores the result in the receipt.
\<close>

definition calculatePoints :: "platform \<Rightarrow> Receipt \<Rightarrow> Receipt" where
  "calculatePoints P receipt =
     (let points0 = 0;
          points1 = points0 + rule1 P receipt;
          points2 = points1 + rule2 P receipt;
          points3 = points2 + rule3 P receipt;
          points4 = points3 + rule4 receipt;
          points5 = itemsLoop P (Items receipt) points4;
          points6 = points5 + rule6 receipt;
          points7 = points6 + rule7 receipt
      in receipt\<lparr>Points := points7\<rparr>)"

section \<open>The store and the two handlers\<close>

text \<open>
  The package variable \<open>receipts\<close> is a map from identifiers to scored receipts; every
  handler runs under the one mutex, so a handler is a function from the store to a
  response and the store after it. A response is what the handler wrote: the call of
  \<open>http.Error\<close> with its message and status code, or the JSON value handed to
  \<open>jsonResponse\<close> (whose encoding of these two shapes cannot fail). An index out of
  range aborts the handler with a run-time panic.
\<close>

type_synonym store = "string \<rightharpoonup> Receipt"

datatype response =
    http_Error string nat
  | json_ID string
  | json_Points int64
  | panic

definition StatusBadRequest :: nat where "StatusBadRequest = 400"
definition StatusNotFound :: nat where "StatusNotFound = 404"
definition StatusInternalServerError :: nat where "StatusInternalServerError = 500"

text \<open>\<open>hex.EncodeToString\<close>: two lower-case hexadecimal digits for each byte.\<close>

definition hexDigit :: "nat \<Rightarrow> char" where
  "hexDigit n = ''0123456789abcdef'' ! (n mod 16)"

fun EncodeToString :: "8 word list \<Rightarrow> string" where
  "EncodeToString [] = []"
| "EncodeToString (b # bs) = hexDigit (unat b div 16) # hexDigit (unat b mod 16) # EncodeToString bs"

text \<open>
  \<open>generateID\<close>: \<open>rand.Read\<close> either fails with an error text or fills the 16 bytes; its
  outcome is an input of the model.
\<close>

definition generateID :: "string + 8 word list \<Rightarrow> string + string" where
  "generateID entropy = (case entropy of Inl err \<Rightarrow> Inl err | Inr bytes \<Rightarrow> Inr (EncodeToString bytes))"

text \<open>
  \<open>ProcessReceipt\<close>: \<open>body\<close> is the outcome of decoding the request body into a
  \<open>Receipt\<close> (the decoder's error text, or the receipt).
\<close>

definition ProcessReceipt ::
  "platform \<Rightarrow> string + Receipt \<Rightarrow> string + 8 word list \<Rightarrow> store \<Rightarrow> response \<times> store" where
  "ProcessReceipt P body entropy receipts =
     (case body of
        Inl err \<Rightarrow> (http_Error err StatusBadRequest, receipts)
      | Inr receipt0 \<Rightarrow>
          (let receipt = calculatePoints P receipt0 in
           case generateID entropy of
             Inl err \<Rightarrow> (http_Error err StatusInternalServerError, receipts)
           | Inr ident \<Rightarrow> (json_ID ident, receipts(ident \<mapsto> receipt))))"

text \<open>\<open>GetPoints\<close>: the identifier is the third segment of the URL path.\<close>

definition GetPoints :: "string \<Rightarrow> store \<Rightarrow> response \<times> store" where
  "GetPoints path receipts =
     (let segments = Split path (CHR ''/'') in
      if length segments \<le> 2 then (panic, receipts)
      else
        (let ident = segments ! 2 in
         case receipts ident of
           None \<Rightarrow> (http_Error ''Invalid receipt ID'' StatusBadRequest, receipts)
         | Some receipt \<Rightarrow> (json_Points (Points receipt), receipts)))"

definition GetPointsHandler :: "string \<Rightarrow> store \<Rightarrow> response \<times> store" where
  "GetPointsHandler path receipts =
     (if HasSuffix path ''/points'' then GetPoints path receipts
      else (http_Error ''Not found'' StatusNotFound, receipts))"

section \<open>The score without wrap-around\<close>

text \<open>
  For stating when the 64-bit sum is the mathematical one: the amounts the rules add,
  read as signed integers and summed in \<^typ>\<open>int\<close>. \<open>itemsSum\<close> is the sum of the
  \<open>itemPoints\<close> that the loop of rule 5 adds; \<open>exactPoints\<close> is the sum over the seven rules.
\<close>

fun itemsSum :: "platform \<Rightarrow> Item list \<Rightarrow> int" where
  "itemsSum P [] = 0"
| "itemsSum P (item # items) =
     (if length (TrimSpace (ShortDescription item)) mod 3 = 0 \<and> 0 <s itemPoints P item
      then sint (itemPoints P item) else 0) + itemsSum P items"

definition exactPoints :: "platform \<Rightarrow> Receipt \<Rightarrow> int" where
  "exactPoints P receipt =
     int (length (retailerLoop P (rangeRunes (Retailer receipt)) []))
     + sint (rule2 P receipt) + sint (rule3 P receipt)
     + (int (length (Items receipt)) div 2) * 5
     + itemsSum P (Items receipt)
     + sint (rule6 receipt) + sint (rule7 receipt)"

section \<open>Purchase date and purchase time\<close>

lemma parseClock_fields:
  assumes "parseClock s = Inr t"
  shows "hour t < 24 \<and> minute t < 60 \<and> year t = 0 \<and> month t = 1 \<and> day t = 1"
  using assms
  by (auto simp: parseClock_def Date_def split: option.splits if_splits prod.splits)

lemma rule7_window:
  assumes "time_Parse ''15:04'' (PurchaseTime r) = (t, None)"
  shows "rule7 r =
    (if 14 * 60 < hour t * 60 + minute t \<and> hour t * 60 + minute t < 16 * 60 then 10 else 0)"
proof -
  from assms have p: "parseClock (PurchaseTime r) = Inr t"
    by (auto simp: time_Parse_def split: sum.splits)
  from parseClock_fields [OF p] have m: "minute t < 60" by simp
  have a: "After t (Date (year t) (month t) (day t) 14 0) \<longleftrightarrow> 14 * 60 < hour t * 60 + minute t"
    using m by (auto simp: After_def Before_def Date_def)
  have b: "Before t (Date (year t) (month t) (day t) 16 0) \<longleftrightarrow> hour t * 60 + minute t < 16 * 60"
    using m by (auto simp: Before_def Date_def)
  show ?thesis using assms a b by (simp add: rule7_def)
qed

lemmas clock_eval =
  rule7_def time_Parse_def parseClock_def getnum_def isDigit_def digitVal_def Date_def
  After_def Before_def

lemma rule7_at_1400: "rule7 (r\<lparr>PurchaseTime := ''14:00''\<rparr>) = 0"
  by (simp add: clock_eval)

lemma rule7_at_1500: "rule7 (r\<lparr>PurchaseTime := ''15:00''\<rparr>) = 10"
  by (simp add: clock_eval)

lemma rule7_at_1600: "rule7 (r\<lparr>PurchaseTime := ''16:00''\<rparr>) = 0"
  by (simp add: clock_eval)

text \<open>
  C6. Whenever the purchase time parses, rule 7 adds 10 exactly when the parsed time of
  day lies strictly between 14:00 and 16:00 (in minutes since midnight, strictly between
  840 and 960), and nothing otherwise. In particular "14:00" and "16:00" earn nothing and
  "15:00" earns 10.
\<close>

theorem C6_afternoon_window:
  "(time_Parse ''15:04'' (PurchaseTime r) = (t, None) \<longrightarrow>
      rule7 r = (if 14 * 60 < hour t * 60 + minute t \<and> hour t * 60 + minute t < 16 * 60
                 then 10 else 0))
   \<and> rule7 (r\<lparr>PurchaseTime := ''14:00''\<rparr>) = 0
   \<and> rule7 (r\<lparr>PurchaseTime := ''16:00''\<rparr>) = 0
   \<and> rule7 (r\<lparr>PurchaseTime := ''15:00''\<rparr>) = 10"
  using rule7_window [of r t] rule7_at_1400 [of r] rule7_at_1500 [of r] rule7_at_1600 [of r]
  by blast

theorem C6_afternoon_window_witness:
  "time_Parse ''15:04''
     (PurchaseTime \<lparr>Retailer = ''Target'', PurchaseDate = ''2022-01-01'',
        PurchaseTime = ''15:59'', Items = [], Total = ''6.49'', Points = 0\<rparr>)
     = (Date 0 1 1 15 59, None)
   \<and> rule7 \<lparr>Retailer = ''Target'', PurchaseDate = ''2022-01-01'',
        PurchaseTime = ''15:59'', Items = [], Total = ''6.49'', Points = 0\<rparr> = 10"
proof -
  let ?r = "\<lparr>Retailer = ''Target'', PurchaseDate = ''2022-01-01'',
        PurchaseTime = ''15:59'', Items = [], Total = ''6.49'', Points = 0\<rparr>"
  have p: "time_Parse ''15:04'' (PurchaseTime ?r) = (Date 0 1 1 15 59, None)"
    by (simp add: time_Parse_def parseClock_def getnum_def isDigit_def digitVal_def)
  from C6_afternoon_window [of ?r "Date 0 1 1 15 59"] p
  have "rule7 ?r = (if 14 * 60 < hour (Date 0 1 1 15 59) * 60 + minute (Date 0 1 1 15 59)
      \<and> hour (Date 0 1 1 15 59) * 60 + minute (Date 0 1 1 15 59) < 16 * 60 then 10 else 0)"
    by blast
  then have "rule7 ?r = 10" by (simp add: Date_def)
  with p show ?thesis by simp
qed

lemma rule6_unparseable:
  "snd (time_Parse ''2006-01-02'' (PurchaseDate r)) \<noteq> None \<Longrightarrow> rule6 r = 6"
  by (auto simp: rule6_def time_Parse_def zeroTime_def split: sum.splits)

lemmas date_eval =
  rule6_def time_Parse_def parseDate_def getnum_def isDigit_def digitVal_def Date_def
  daysIn_def isLeap_def zeroTime_def

text \<open>
  The claim C3 as stated (an unparseable purchase date earns nothing from rule 6) fails:
  February 30 is no calendar date, \<open>time.Parse\<close> reports an error, and rule 6 still adds 6.
\<close>

theorem C3_unparseable_date_counterexample:
  "snd (time_Parse ''2006-01-02'' ''2022-02-30'') \<noteq> None
   \<and> rule6 \<lparr>Retailer = ''Target'', PurchaseDate = ''2022-02-30'',
        PurchaseTime = ''13:01'', Items = [], Total = ''6.49'', Points = 0\<rparr> = 6"
  by (simp add: date_eval)

text \<open>
  C3, amended. Whenever the purchase date fails to parse, \<open>time.Parse\<close> returns the zero
  time, whose day of the month is 1, so rule 6 adds exactly 6 points.
\<close>

theorem C3_unparseable_date_earns_six:
  "snd (time_Parse ''2006-01-02'' (PurchaseDate r)) \<noteq> None \<Longrightarrow> rule6 r = 6"
  by (rule rule6_unparseable)

theorem C3_unparseable_date_earns_six_witness:
  "snd (time_Parse ''2006-01-02''
      (PurchaseDate \<lparr>Retailer = ''Target'', PurchaseDate = ''yesterday'',
        PurchaseTime = ''13:01'', Items = [], Total = ''6.49'', Points = 0\<rparr>)) \<noteq> None
   \<and> rule6 \<lparr>Retailer = ''Target'', PurchaseDate = ''yesterday'',
        PurchaseTime = ''13:01'', Items = [], Total = ''6.49'', Points = 0\<rparr> = 6"
proof -
  let ?r = "\<lparr>Retailer = ''Target'', PurchaseDate = ''yesterday'',
        PurchaseTime = ''13:01'', Items = [], Total = ''6.49'', Points = 0\<rparr>"
  have p: "snd (time_Parse ''2006-01-02'' (PurchaseDate ?r)) \<noteq> None"
    by (simp add: time_Parse_def parseDate_def isDigit_def)
  from C3_unparseable_date_earns_six [OF p] p show ?thesis by simp
qed

section \<open>Exactness of binary64 on small integers\<close>

lemma bitlen_nonneg: "0 \<le> bitlen m"
  by (induction m rule: bitlen.induct) (subst bitlen.simps, simp)

lemma bitlen_step: "0 < n \<Longrightarrow> bitlen n = 1 + bitlen (n div 2)"
  by (subst bitlen.simps) simp

lemma bitlen_pos: "0 < n \<Longrightarrow> 1 \<le> bitlen n"
  using bitlen_nonneg [of "n div 2"] by (simp add: bitlen_step)

lemma bitlen_one: "bitlen 1 = 1"
  by (subst bitlen.simps, subst bitlen.simps) simp

lemma bitlen_bounds: "0 < n \<Longrightarrow> 2 ^ nat (bitlen n - 1) \<le> n \<and> n < 2 ^ nat (bitlen n)"
proof (induction n rule: bitlen.induct)
  case (1 n)
  show ?case
  proof (cases "n = 1")
    case True
    then show ?thesis by (simp add: bitlen_one)
  next
    case False
    with 1 have h: "0 < n div 2" by simp
    from 1 h have ih: "2 ^ nat (bitlen (n div 2) - 1) \<le> n div 2 \<and> n div 2 < 2 ^ nat (bitlen (n div 2))"
      by simp
    have bl: "bitlen n = 1 + bitlen (n div 2)"
      using 1(2) by (rule bitlen_step)
    from bitlen_pos [OF h] have p: "1 \<le> bitlen (n div 2)" .
    then have e1: "nat (bitlen n - 1) = Suc (nat (bitlen (n div 2) - 1))"
      using bl by simp
    have e2: "nat (bitlen n) = Suc (nat (bitlen (n div 2)))"
      using bl p by simp
    from ih show ?thesis
      unfolding e1 e2 by auto
  qed
qed

lemma roundEven_one: "roundEven n 1 = n"
  by (simp add: roundEven_def)

lemma roundPos_int:
  assumes "0 < k" "k < 2 ^ 53"
  shows "roundPos k 1 = Finite (of_int k)"
proof -
  from bitlen_bounds [OF assms(1)]
  have lo: "2 ^ nat (bitlen k - 1) \<le> k" and hi: "k < 2 ^ nat (bitlen k)" by simp_all
  from bitlen_pos [OF assms(1)] have bp: "1 \<le> bitlen k" .
  have le53: "bitlen k \<le> 53"
  proof (rule ccontr)
    assume "\<not> bitlen k \<le> 53"
    then have "53 \<le> nat (bitlen k - 1)" by simp
    then have "(2::int) ^ 53 \<le> 2 ^ nat (bitlen k - 1)"
      by (intro power_increasing) simp_all
    with lo assms(2) show False by simp
  qed
  have il: "ilog2 k 1 = bitlen k - 1"
    using lo bp by (simp add: ilog2_def bitlen_one Let_def)
  have mx: "max (bitlen k - 1) (- 1022) = bitlen k - 1"
    using bp by simp
  show ?thesis
  proof (cases "bitlen k = 53")
    case True
    have "\<not> (2::int) ^ 1024 \<le> k"
    proof
      assume "(2::int) ^ 1024 \<le> k"
      moreover have "(2::int) ^ 53 \<le> 2 ^ 1024" by simp
      ultimately show False using assms(2) by linarith
    qed
    then show ?thesis
      unfolding roundPos_def il mx True Let_def
      by (simp add: roundEven_one)
  next
    case False
    with le53 have neg: "\<not> 0 \<le> bitlen k - 1 - 52" by simp
    show ?thesis
      unfolding roundPos_def il mx Let_def
      using neg by (simp add: roundEven_one)
  qed
qed

lemma round64_int:
  assumes "\<bar>k\<bar> < 2 ^ 53"
  shows "round64 (of_int k) = Finite (of_int k)"
proof -
  consider "k = 0" | "0 < k" | "k < 0" by linarith
  then show ?thesis
  proof cases
    case 1
    then show ?thesis by (simp add: round64_def)
  next
    case 2
    with assms have "roundPos k 1 = Finite (of_int k)" by (intro roundPos_int) simp_all
    with 2 show ?thesis by (simp add: round64_def)
  next
    case 3
    with assms have "roundPos (- k) 1 = Finite (of_int (- k))" by (intro roundPos_int) simp_all
    moreover have "quotient_of (- (of_int k :: rat)) = (- k, 1)"
      by (simp flip: of_int_minus)
    ultimately show ?thesis using 3 by (simp add: round64_def neg64_def)
  qed
qed

lemma bitlen_le:
  assumes "0 < k" "k < 2 ^ n"
  shows "bitlen k \<le> int n"
proof (rule ccontr)
  assume "\<not> bitlen k \<le> int n"
  then have "n \<le> nat (bitlen k - 1)" by simp
  then have "(2::int) ^ n \<le> 2 ^ nat (bitlen k - 1)"
    by (intro power_increasing) simp_all
  with bitlen_bounds [OF assms(1)] assms(2) show False by simp
qed

lemma bitlen_double: "0 < k \<Longrightarrow> bitlen (2 * k) = 1 + bitlen k"
  using bitlen_step [of "2 * k"] by simp

lemma ilog2_int: "0 < k \<Longrightarrow> ilog2 k 1 = bitlen k - 1"
  using bitlen_bounds [of k] bitlen_pos [of k]
  by (simp add: ilog2_def bitlen_one Let_def)

lemma roundEven_exact: "0 < d \<Longrightarrow> roundEven (q * d) d = q"
  by (simp add: roundEven_def)

lemma roundPos_int4:
  assumes "0 < m" "m < 2 ^ 53"
  shows "roundPos (4 * m) 1 = Finite (of_int (4 * m))"
proof -
  have b4: "bitlen (4 * m) = bitlen m + 2"
    using bitlen_double [of "2 * m"] bitlen_double [of m] assms(1) by simp
  from bitlen_pos [OF assms(1)] have bp: "1 \<le> bitlen m" .
  from bitlen_le [OF assms] have le53: "bitlen m \<le> 53" by simp
  have il: "ilog2 (4 * m) 1 = bitlen m + 1"
    using assms(1) by (simp add: ilog2_int b4)
  have mx: "max (bitlen m + 1) (- 1022) = bitlen m + 1"
    using bp by simp
  have small: "\<not> (2::int) ^ 1024 \<le> 4 * m"
  proof -
    have "4 * m < 2 ^ 55" using assms(2) by simp
    also have "(2::int) ^ 55 \<le> 2 ^ 1024" by simp
    finally show ?thesis by simp
  qed
  consider "bitlen m = 53" | "bitlen m = 52" | "bitlen m = 51" | "bitlen m \<le> 50"
    using le53 by linarith
  then show ?thesis
  proof cases
    case 1
    have "roundEven (4 * m) 4 = m" using roundEven_exact [of 4 m] by (simp add: mult.commute)
    then show ?thesis
      unfolding roundPos_def il mx 1 Let_def using small by simp
  next
    case 2
    have "roundEven (4 * m) 2 = 2 * m" using roundEven_exact [of 2 "2 * m"] by simp
    then show ?thesis
      unfolding roundPos_def il mx 2 Let_def using small by simp
  next
    case 3
    show ?thesis
      unfolding roundPos_def il mx 3 Let_def using small by (simp add: roundEven_one)
  next
    case 4
    then have neg: "\<not> 0 \<le> bitlen m + 1 - 52" by simp
    show ?thesis
      unfolding roundPos_def il mx Let_def
      using neg by (simp add: roundEven_one)
  qed
qed

lemma round64_via_roundPos:
  assumes "k \<noteq> 0 \<Longrightarrow> roundPos \<bar>k\<bar> 1 = Finite (of_int \<bar>k\<bar>)"
  shows "round64 (of_int k) = Finite (of_int k)"
proof -
  consider "k = 0" | "0 < k" | "k < 0" by linarith
  then show ?thesis
  proof cases
    case 1
    then show ?thesis by (simp add: round64_def)
  next
    case 2
    with assms have "roundPos k 1 = Finite (of_int k)" by simp
    with 2 show ?thesis by (simp add: round64_def)
  next
    case 3
    with assms have "roundPos (- k) 1 = Finite (of_int (- k))" by simp
    moreover have "quotient_of (- (of_int k :: rat)) = (- k, 1)"
      using quotient_of_rat_of_int [of "- k"] by simp
    ultimately show ?thesis using 3 by (simp add: round64_def neg64_def)
  qed
qed

lemma round64_int4:
  assumes "\<bar>m\<bar> < 2 ^ 53"
  shows "round64 (of_int (4 * m)) = Finite (of_int (4 * m))"
proof (rule round64_via_roundPos)
  assume "4 * m \<noteq> 0"
  then have "0 < \<bar>m\<bar>" by simp
  from roundPos_int4 [OF this assms] show "roundPos \<bar>4 * m\<bar> 1 = Finite (of_int \<bar>4 * m\<bar>)"
    by (simp add: abs_mult)
qed

lemma roundEven_le:
  assumes "0 \<le> n" "0 < d"
  shows "roundEven n d \<le> n div d + 1"
  using assms by (auto simp: roundEven_def Let_def)

lemma roundPos_finite:
  assumes "0 < k" "k < 2 ^ 64"
  shows "\<exists>x. roundPos k 1 = Finite x"
proof -
  from bitlen_le [OF assms] have le: "bitlen k \<le> 64" by simp
  from bitlen_pos [OF assms(1)] have bp: "1 \<le> bitlen k" .
  define e where "e = max (ilog2 k 1) (- 1022) - 52"
  have e: "e = bitlen k - 53" using bp assms(1) by (simp add: e_def ilog2_int)
  have "\<not> (0 \<le> e \<and> 2 ^ 1024 \<le> roundEven k (1 * 2 ^ nat e) * 2 ^ nat e)"
  proof
    assume a: "0 \<le> e \<and> 2 ^ 1024 \<le> roundEven k (1 * 2 ^ nat e) * 2 ^ nat e"
    have n11: "nat e \<le> 11" using e le by simp
    have p11: "(2::int) ^ nat e \<le> 2 ^ 11" using n11 by (intro power_increasing) simp_all
    have "roundEven k (2 ^ nat e) \<le> k div 2 ^ nat e + 1"
      using assms(1) by (intro roundEven_le) simp_all
    then have "roundEven k (2 ^ nat e) * 2 ^ nat e \<le> (k div 2 ^ nat e + 1) * 2 ^ nat e"
      by (intro mult_right_mono) simp_all
    also have "\<dots> = k div 2 ^ nat e * 2 ^ nat e + 2 ^ nat e" by (simp add: algebra_simps)
    also have "\<dots> \<le> k + 2 ^ 11"
    proof -
      have "k div 2 ^ nat e * 2 ^ nat e + k mod 2 ^ nat e = k" by (rule div_mult_mod_eq)
      moreover have "0 \<le> k mod 2 ^ nat e" by simp
      ultimately have "k div 2 ^ nat e * 2 ^ nat e \<le> k" by linarith
      with p11 show ?thesis by linarith
    qed
    also have "\<dots> < 2 ^ 64 + 2 ^ 11" using assms(2) by simp
    also have "\<dots> < (2::int) ^ 1024" by simp
    finally show False using a by simp
  qed
  then show ?thesis
    unfolding roundPos_def Let_def e_def [symmetric] by auto
qed

lemma round64_int_finite:
  assumes "- (2 ^ 64) < k" "k < 2 ^ 64"
  shows "\<exists>x. round64 (of_int k) = Finite x"
proof -
  consider "k = 0" | "0 < k" | "k < 0" by linarith
  then show ?thesis
  proof cases
    case 1
    then show ?thesis by (simp add: round64_def)
  next
    case 2
    with assms have "\<exists>x. roundPos k 1 = Finite x" by (intro roundPos_finite) simp_all
    with 2 show ?thesis by (simp add: round64_def)
  next
    case 3
    with assms have "\<exists>x. roundPos (- k) 1 = Finite x" by (intro roundPos_finite) simp_all
    moreover have "quotient_of (- (of_int k :: rat)) = (- k, 1)"
      using quotient_of_rat_of_int [of "- k"] by simp
    ultimately show ?thesis using 3 by (auto simp: round64_def neg64_def)
  qed
qed

lemma fromInt_finite: "\<exists>x. fromInt w = Finite x"
proof -
  have "- (2 ^ 64) < sint w" using sint_ge [of w] by simp
  moreover have "sint w < 2 ^ 64" using sint_lt [of w] by simp
  ultimately show ?thesis unfolding fromInt_def by (rule round64_int_finite)
qed
section \<open>Rule 1: the retailer name\<close>

lemmas rune_eval =
  rangeRunes.simps decodeRune_def byteAt_def contIn_def RuneError_def encodeRune_def
  IsLetter_def IsDigit_def MaxLatin1_def latin1Letter_def

text \<open>
  On a retailer name of ASCII bytes every byte is a rune of width 1, so rule 1 adds the
  number of its letters and digits.
\<close>

lemma rangeRunes_ascii: "list_all (\<lambda>c. (of_char c :: nat) < 0x80) s \<Longrightarrow> rangeRunes s = map of_char s"
proof (induction s)
  case Nil
  then show ?case by (simp add: rangeRunes.simps)
next
  case (Cons c s)
  then have d: "decodeRune (c # s) = (of_char c, 1)"
    by (simp add: decodeRune_def byteAt_def)
  from Cons show ?case
    by (subst rangeRunes.simps) (simp add: d)
qed

lemma retailerLoop_length:
  "list_all (\<lambda>r. r < 0x80) rs \<Longrightarrow>
   length (retailerLoop P rs acc)
     = length acc + length (filter (\<lambda>r. IsLetter (Letter P) r \<or> IsDigit (Digit P) r) rs)"
  by (induction rs arbitrary: acc) (auto simp: encodeRune_def)

lemma of_char_le_255: "(of_char c :: nat) \<le> 255"
proof -
  have "(of_char c :: nat) mod 256 < 256" by simp
  then have "(of_char c :: nat) < 256" by (simp only: of_char_mod_256)
  then show ?thesis by linarith
qed

lemma alnum_byte:
  "(IsLetter (Letter P) (of_char c) \<or> IsDigit (Digit P) (of_char c))
     = (latin1Letter (of_char c) \<or> isDigit [c] 0)"
  using of_char_le_255 [of c]
  by (simp add: IsLetter_def IsDigit_def MaxLatin1_def isDigit_def)

lemma rule1_ascii:
  assumes "list_all (\<lambda>c. (of_char c :: nat) < 0x80) (Retailer r)"
  shows "rule1 P r = of_nat (length (filter (\<lambda>c. latin1Letter (of_char c) \<or> isDigit [c] 0) (Retailer r)))"
proof -
  have a: "list_all (\<lambda>r. r < 0x80) (map of_char (Retailer r) :: nat list)"
    using assms by (simp add: list_all_iff)
  have b: "length (filter (\<lambda>r. IsLetter (Letter P) r \<or> IsDigit (Digit P) r) (map of_char (Retailer r)))
      = length (filter (\<lambda>c. latin1Letter (of_char c) \<or> isDigit [c] 0) (Retailer r))"
    by (simp add: filter_map o_def alnum_byte)
  show ?thesis
    unfolding rule1_def rangeRunes_ascii [OF assms] retailerLoop_length [OF a] b by simp
qed

text \<open>
  C5 asks for one point per letter or digit of the retailer name, also for a letter of
  several bytes. A retailer name that is the one letter U+00E9 (e with an acute accent)
  is the two bytes C3 A9: the loop sees the one rune U+00E9, a letter, and appends its
  two-byte encoding, and \<open>len\<close> counts 2.
\<close>

theorem C5_two_points_for_one_letter:
  "rangeRunes [CHR 0xC3, CHR 0xA9] = [0xE9]
   \<and> IsLetter (Letter P) 0xE9
   \<and> rule1 P (r\<lparr>Retailer := [CHR 0xC3, CHR 0xA9]\<rparr>) = 2"
  by (simp add: rule1_def rune_eval)

section \<open>Rules 2 and 3: the total\<close>

lemma ParseFloat_syntax_zero:
  "snd (ParseFloat s) = Some ErrSyntax \<Longrightarrow> fst (ParseFloat s) = Finite 0"
  by (auto simp: ParseFloat_def atof64_def Let_def split: option.splits prod.splits if_splits)

lemma toInt_int:
  assumes "- (2 ^ 63) \<le> k" "k < 2 ^ 63"
  shows "toInt c (Finite (of_int k)) = word_of_int k"
  using assms by (simp add: toInt_def Let_def)

lemma sint_word_of_int64:
  assumes "- (2 ^ 63) \<le> k" "k < 2 ^ 63"
  shows "sint (word_of_int k :: int64) = k"
  using assms by (simp add: sint_sbintrunc' signed_take_bit_int_eq_self)

lemma rule2_zero: "fst (ParseFloat (Total r)) = Finite 0 \<Longrightarrow> rule2 P r = 50"
  using toInt_int [of 0 "conv P"] round64_int [of 0]
  by (simp add: rule2_def fromInt_def eq64_def isNaN_def)

lemma rule3_zero: "fst (ParseFloat (Total r)) = Finite 0 \<Longrightarrow> rule3 P r = 25"
  using toInt_int [of 0 "conv P"] round64_int [of 0]
  by (simp add: rule3_def mul64_def)

lemma trunc_int:
  fixes q :: rat
  shows "\<bar>of_int (if 0 \<le> q then \<lfloor>q\<rfloor> else \<lceil>q\<rceil>) :: rat\<bar> \<le> \<bar>q\<bar>"
proof (cases "0 \<le> q")
  case True
  then have "0 \<le> \<lfloor>q\<rfloor>" by simp
  then have "\<bar>of_int \<lfloor>q\<rfloor> :: rat\<bar> = of_int \<lfloor>q\<rfloor>" by simp
  with True show ?thesis by simp
next
  case False
  then have "\<lceil>q\<rceil> \<le> 0" by (simp add: ceiling_le_iff)
  then have "\<bar>of_int \<lceil>q\<rceil> :: rat\<bar> = - of_int \<lceil>q\<rceil>" by simp
  with False show ?thesis by simp
qed

lemma atof64_range_inf:
  assumes "atof64 s = (f, n, Some ErrRange)"
  shows "isInf f"
proof (cases "special s")
  case (Some a)
  with assms show ?thesis by (cases a) (simp add: atof64_def)
next
  case None
  show ?thesis
  proof (cases "readFloat s")
    case n: None
    with None assms show ?thesis by (simp add: atof64_def)
  next
    case (Some b)
    obtain mant ex neg hex rest where b: "b = (mant, ex, neg, hex, rest)"
      by (cases b) auto
    from assms None Some b show ?thesis
      by (simp add: atof64_def Let_def split: if_splits)
  qed
qed

lemma ParseFloat_range_inf:
  assumes "snd (ParseFloat s) = Some ErrRange"
  shows "isInf (fst (ParseFloat s))"
proof -
  obtain f n err where a: "atof64 s = (f, n, err)" by (cases "atof64 s") auto
  with assms have "err = Some ErrRange" "fst (ParseFloat s) = f"
    by (auto simp: ParseFloat_def split: if_splits)
  with a atof64_range_inf [of s f n] show ?thesis by simp
qed

lemma rule2_inf: 
  assumes "isInf (fst (ParseFloat (Total r)))"
  shows "rule2 P r = 0"
proof -
  obtain x where "fromInt (toInt (conv P) (fst (ParseFloat (Total r)))) = Finite x"
    using fromInt_finite by blast
  with assms show ?thesis
    by (auto simp: rule2_def Let_def eq64_def isInf_def split: float64.splits)
qed

lemma rule3_inf_amd64:
  assumes "isInf (fst (ParseFloat (Total r)))"
  shows "rule3 (P\<lparr>conv := conv amd64\<rparr>) r = 0"
  using assms
  by (auto simp: rule3_def Let_def isInf_def mul64_def isNaN_def signOf_def toInt_def amd64_def
      split: float64.splits)

lemma round_total_is_quarter_multiple:
  assumes tot: "fst (ParseFloat (Total r)) = Finite q"
    and small: "\<bar>q\<bar> * 100 < 2 ^ 55"
    and r2: "rule2 P r = 50"
  shows "rule3 P r = 25"
proof -
  define t where "t = (if 0 \<le> q then \<lfloor>q\<rfloor> else \<lceil>q\<rceil>)"
  have tq: "\<bar>of_int t :: rat\<bar> \<le> \<bar>q\<bar>"
    unfolding t_def by (rule trunc_int)
  have "\<bar>of_int t :: rat\<bar> * 100 < 2 ^ 55" using tq small by linarith
  then have "(of_int (\<bar>t\<bar> * 100) :: rat) < of_int (2 ^ 55)" by simp
  then have t100: "\<bar>t\<bar> * 100 < 2 ^ 55" by (simp only: of_int_less_iff)
  then have t53: "\<bar>t\<bar> < 2 ^ 53" by simp
  have range: "- (2 ^ 63) \<le> t" "t < 2 ^ 63" using t53 by simp_all
  have ti: "toInt (conv P) (Finite q) = word_of_int t"
    using range by (simp add: toInt_def Let_def t_def)
  have fi: "fromInt (word_of_int t) = Finite (of_int t)"
    using range t53 by (simp add: fromInt_def sint_word_of_int64 round64_int)
  from r2 tot have "eq64 (Finite q) (fromInt (toInt (conv P) (Finite q)))"
    by (simp add: rule2_def Let_def split: if_splits)
  then have q: "q = of_int t" by (simp add: ti fi eq64_def)
  have "\<bar>t * 25\<bar> < 2 ^ 53" using t100 by (simp add: abs_mult)
  from round64_int4 [OF this] have "round64 (of_int (t * 100)) = Finite (of_int (t * 100))"
    by (simp add: mult.commute)
  then have m: "mul64 (Finite q) (Finite 100) = Finite (of_int (t * 100))"
    by (simp add: mul64_def q)
  have range100: "- (2 ^ 63) \<le> t * 100" "t * 100 < 2 ^ 63" using t100 by simp_all
  have "sint (toInt (conv P) (Finite (of_int (t * 100)))) = t * 100"
    using range100 toInt_int [OF range100] sint_word_of_int64 [OF range100] by simp
  then show ?thesis using tot by (simp add: rule3_def m smod_int_alt_def)
qed

text \<open>
  The claim C2 as stated (a total that does not parse earns nothing from rules 2 and 3)
  fails: "12,50" is no number for \<open>ParseFloat\<close>, and both rules add their points.
\<close>

theorem C2_unparseable_total_counterexample:
  "snd (ParseFloat ''12,50'') = Some ErrSyntax
   \<and> rule2 amd64 \<lparr>Retailer = ''Target'', PurchaseDate = ''2022-01-01'', PurchaseTime = ''13:01'',
      Items = [], Total = ''12,50'', Points = 0\<rparr> = 50
   \<and> rule3 amd64 \<lparr>Retailer = ''Target'', PurchaseDate = ''2022-01-01'', PurchaseTime = ''13:01'',
      Items = [], Total = ''12,50'', Points = 0\<rparr> = 25"
  by code_simp

text \<open>
  C2, amended. \<open>ParseFloat\<close> fails in two ways, and the error is dropped in both.
  When it rejects the total string as ill-formed it returns 0, which is both a round
  amount and a multiple of 0.25: rule 2 adds 50 and rule 3 adds 25.
  When the string is a well-formed number beyond the range of \<open>float64\<close> it returns an
  infinity: rule 2 adds nothing on any platform, and rule 3, which converts the infinity
  to \<open>int\<close>, adds nothing with the conversion of amd64.
\<close>

theorem C2_unparseable_total:
  "(snd (ParseFloat (Total r)) = Some ErrSyntax \<longrightarrow>
      fst (ParseFloat (Total r)) = Finite 0 \<and> rule2 P r = 50 \<and> rule3 P r = 25)
   \<and> (snd (ParseFloat (Total r)) = Some ErrRange \<longrightarrow>
      isInf (fst (ParseFloat (Total r))) \<and> rule2 P r = 0 \<and> rule3 (P\<lparr>conv := conv amd64\<rparr>) r = 0)"
  using ParseFloat_syntax_zero [of "Total r"] rule2_zero [of r P] rule3_zero [of r P]
    ParseFloat_range_inf [of "Total r"] rule2_inf [of r P] rule3_inf_amd64 [of r P]
  by blast

theorem C2_unparseable_total_witness:
  "snd (ParseFloat (Total \<lparr>Retailer = ''Target'', PurchaseDate = ''2022-01-01'', PurchaseTime = ''13:01'',
      Items = [], Total = '''', Points = 0\<rparr>)) = Some ErrSyntax
   \<and> rule2 amd64 \<lparr>Retailer = ''Target'', PurchaseDate = ''2022-01-01'', PurchaseTime = ''13:01'',
      Items = [], Total = '''', Points = 0\<rparr> = 50
   \<and> rule3 amd64 \<lparr>Retailer = ''Target'', PurchaseDate = ''2022-01-01'', PurchaseTime = ''13:01'',
      Items = [], Total = '''', Points = 0\<rparr> = 25
   \<and> snd (ParseFloat (Total \<lparr>Retailer = ''Target'', PurchaseDate = ''2022-01-01'', PurchaseTime = ''13:01'',
      Items = [], Total = ''1e309'', Points = 0\<rparr>)) = Some ErrRange
   \<and> rule2 amd64 \<lparr>Retailer = ''Target'', PurchaseDate = ''2022-01-01'', PurchaseTime = ''13:01'',
      Items = [], Total = ''1e309'', Points = 0\<rparr> = 0
   \<and> rule3 amd64 \<lparr>Retailer = ''Target'', PurchaseDate = ''2022-01-01'', PurchaseTime = ''13:01'',
      Items = [], Total = ''1e309'', Points = 0\<rparr> = 0"
proof -
  let ?r = "\<lparr>Retailer = ''Target'', PurchaseDate = ''2022-01-01'', PurchaseTime = ''13:01'',
      Items = [], Total = '''', Points = 0\<rparr>"
  let ?s = "\<lparr>Retailer = ''Target'', PurchaseDate = ''2022-01-01'', PurchaseTime = ''13:01'',
      Items = [], Total = ''1e309'', Points = 0\<rparr>"
  have h: "snd (ParseFloat (Total ?r)) = Some ErrSyntax" by code_simp
  have k: "snd (ParseFloat (Total ?s)) = Some ErrRange" by code_simp
  have c: "amd64\<lparr>conv := conv amd64\<rparr> = amd64" by simp
  from C2_unparseable_total [of ?r amd64] h
  have a: "rule2 amd64 ?r = 50 \<and> rule3 amd64 ?r = 25" by blast
  from C2_unparseable_total [of ?s amd64] k
  have b: "rule2 amd64 ?s = 0 \<and> rule3 amd64 ?s = 0" unfolding c by blast
  from h k a b show ?thesis by blast
qed

text \<open>
  The claim C10 as stated (a total that earns rule 2 also earns rule 3) fails: the total
  "360287970189641.00" is a whole number, but its product with 100 is not a binary64
  value; it rounds to 36028797018964096, which 25 does not divide.
\<close>

theorem C10_round_total_counterexample:
  "fst (ParseFloat ''360287970189641.00'') = Finite 360287970189641
   \<and> mul64 (Finite 360287970189641) (Finite 100) = Finite 36028797018964096
   \<and> rule2 amd64 \<lparr>Retailer = ''Target'', PurchaseDate = ''2022-01-01'', PurchaseTime = ''13:01'',
      Items = [], Total = ''360287970189641.00'', Points = 0\<rparr> = 50
   \<and> rule3 amd64 \<lparr>Retailer = ''Target'', PurchaseDate = ''2022-01-01'', PurchaseTime = ''13:01'',
      Items = [], Total = ''360287970189641.00'', Points = 0\<rparr> = 0"
  by code_simp

text \<open>
  C10, amended. For a finite parsed total \<open>q\<close> with \<open>|q| * 100 < 2 ^ 55\<close> (totals up to
  360287970189639.67; the counterexample is the first odd whole number above),
  \<open>total * 100\<close> is exact: whenever rule 2 adds its 50 points, rule 3 adds its 25, so the
  two rules earn 75 together.
\<close>

theorem C10_round_total_earns_75:
  assumes "fst (ParseFloat (Total r)) = Finite q"
    and "\<bar>q\<bar> * 100 < 2 ^ 55"
    and "rule2 P r = 50"
  shows "rule3 P r = 25 \<and> rule2 P r + rule3 P r = 75"
  using round_total_is_quarter_multiple [OF assms] assms(3) by simp

theorem C10_round_total_earns_75_witness:
  "fst (ParseFloat (Total \<lparr>Retailer = ''Target'', PurchaseDate = ''2022-01-01'', PurchaseTime = ''13:01'',
      Items = [], Total = ''100.00'', Points = 0\<rparr>)) = Finite 100
   \<and> \<bar>100 :: rat\<bar> * 100 < 2 ^ 55
   \<and> rule2 amd64 \<lparr>Retailer = ''Target'', PurchaseDate = ''2022-01-01'', PurchaseTime = ''13:01'',
      Items = [], Total = ''100.00'', Points = 0\<rparr> = 50
   \<and> rule3 amd64 \<lparr>Retailer = ''Target'', PurchaseDate = ''2022-01-01'', PurchaseTime = ''13:01'',
      Items = [], Total = ''100.00'', Points = 0\<rparr> = 25"
proof -
  let ?r = "\<lparr>Retailer = ''Target'', PurchaseDate = ''2022-01-01'', PurchaseTime = ''13:01'',
      Items = [], Total = ''100.00'', Points = 0\<rparr>"
  have a: "fst (ParseFloat (Total ?r)) = Finite 100" by code_simp
  have b: "\<bar>100 :: rat\<bar> * 100 < 2 ^ 55" by simp
  have c: "rule2 amd64 ?r = 50" by code_simp
  from C10_round_total_earns_75 [OF a b c] a b c show ?thesis by blast
qed

section \<open>Rule 5: the item descriptions\<close>

lemma itemsLoop_acc: "itemsLoop P items p = p + itemsLoop P items 0"
proof (induction items arbitrary: p)
  case Nil
  then show ?case by simp
next
  case (Cons item items)
  show ?case
    using Cons [of "p + itemPoints P item"] Cons [of "itemPoints P item"] Cons [of p]
    by (simp add: Let_def)
qed

lemma itemsLoop_append: "itemsLoop P (xs @ ys) p = itemsLoop P ys (itemsLoop P xs p)"
  by (induction xs arbitrary: p) simp_all

lemma rule5_item:
  "rule5 P (r\<lparr>Items := xs @ item # ys\<rparr>)
     = rule5 P (r\<lparr>Items := xs @ ys\<rparr>)
       + (if length (TrimSpace (ShortDescription item)) mod 3 = 0 \<and> 0 <s itemPoints P item
          then itemPoints P item else 0)"
proof -
  have "itemsLoop P (xs @ item # ys) 0 = itemsLoop P ys (itemsLoop P (item # []) (itemsLoop P xs 0))"
    using itemsLoop_append [of P xs "item # ys" 0] by simp
  also have "\<dots> = itemsLoop P (item # []) (itemsLoop P xs 0) + itemsLoop P ys 0"
    by (rule itemsLoop_acc)
  also have "itemsLoop P (item # []) (itemsLoop P xs 0)
      = itemsLoop P xs 0 + (if length (TrimSpace (ShortDescription item)) mod 3 = 0 \<and> 0 <s itemPoints P item
          then itemPoints P item else 0)"
    by (simp add: Let_def)
  finally have a: "itemsLoop P (xs @ item # ys) 0
      = itemsLoop P xs 0 + (if length (TrimSpace (ShortDescription item)) mod 3 = 0 \<and> 0 <s itemPoints P item
          then itemPoints P item else 0) + itemsLoop P ys 0" .
  have b: "itemsLoop P (xs @ ys) 0 = itemsLoop P xs 0 + itemsLoop P ys 0"
    using itemsLoop_append [of P xs ys 0] itemsLoop_acc [of P ys "itemsLoop P xs 0"] by simp
  show ?thesis by (simp add: rule5_def a b)
qed


text \<open>
  The claim C4 as stated (an item whose trimmed description is empty earns nothing) fails:
  a description of three blanks trims to the empty string, its length 0 is a multiple of
  3, and with the price "10.00" the rule adds 2 points.
\<close>

theorem C4_empty_description_counterexample:
  "TrimSpace ''   '' = []
   \<and> rule5 amd64 \<lparr>Retailer = ''Target'', PurchaseDate = ''2022-01-01'', PurchaseTime = ''13:01'',
      Items = [\<lparr>ShortDescription = ''   '', Price = ''10.00''\<rparr>],
      Total = ''10.00'', Points = 0\<rparr> = 2"
  by code_simp

text \<open>
  C4, amended. An item whose trimmed description is empty is treated as every other item
  whose trimmed length is a multiple of 3: wherever it stands in the list, it adds
  \<open>itemPoints\<close>, that is \<open>int(math.Ceil(price * 0.2))\<close>, to the rule's contribution when
  that value is strictly positive, and nothing otherwise.
\<close>

theorem C4_empty_description_adds_itemPoints:
  assumes "TrimSpace (ShortDescription item) = []"
  shows "rule5 P (r\<lparr>Items := xs @ item # ys\<rparr>)
     = rule5 P (r\<lparr>Items := xs @ ys\<rparr>)
       + (if 0 <s itemPoints P item then itemPoints P item else 0)"
  using assms by (simp add: rule5_item)

theorem C4_empty_description_adds_itemPoints_witness:
  "TrimSpace (ShortDescription \<lparr>ShortDescription = ''   '', Price = ''10.00''\<rparr>) = []
   \<and> rule5 amd64 \<lparr>Retailer = ''Target'', PurchaseDate = ''2022-01-01'', PurchaseTime = ''13:01'',
      Items = [\<lparr>ShortDescription = ''   '', Price = ''10.00''\<rparr>],
      Total = ''10.00'', Points = 0\<rparr> = 2"
proof -
  let ?item = "\<lparr>ShortDescription = ''   '', Price = ''10.00''\<rparr>"
  let ?r = "\<lparr>Retailer = ''Target'', PurchaseDate = ''2022-01-01'', PurchaseTime = ''13:01'',
      Items = [],
      Total = ''10.00'', Points = 0\<rparr>"
  have h: "TrimSpace (ShortDescription ?item) = []" by code_simp
  have p: "itemPoints amd64 ?item = 2" by code_simp
  have z: "rule5 amd64 ?r = 0" by (simp add: rule5_def)
  from C4_empty_description_adds_itemPoints [OF h, where P = amd64 and r = ?r and xs = "[]" and ys = "[]"]
  have "rule5 amd64 (?r\<lparr>Items := [?item]\<rparr>) = rule5 amd64 ?r + 2"
    by (simp add: p word_sless_alt)
  with z have "rule5 amd64 (?r\<lparr>Items := [?item]\<rparr>) = 2" by simp
  with h show ?thesis by simp
qed

section \<open>Submission and lookup\<close>

lemma Split_append_sep: "sep \<notin> set xs \<Longrightarrow> Split (xs @ sep # ys) sep = xs # Split ys sep"
  by (induction xs) auto

lemma Split_points_path:
  assumes "CHR ''/'' \<notin> set ident"
  shows "Split (''/receipts/'' @ ident @ ''/points'') (CHR ''/'') = ['''', ''receipts'', ident, ''points'']"
proof -
  have "Split (ident @ CHR ''/'' # ''points'') (CHR ''/'') = ident # Split ''points'' (CHR ''/'')"
    using assms by (rule Split_append_sep)
  then show ?thesis by simp
qed

lemma hexDigit_not_slash: "hexDigit n \<noteq> CHR ''/''"
proof -
  have "n mod 16 < length ''0123456789abcdef''" by simp
  then have "hexDigit n \<in> set ''0123456789abcdef''"
    unfolding hexDigit_def by (rule nth_mem)
  then show ?thesis by auto
qed

lemma EncodeToString_no_slash: "CHR ''/'' \<notin> set (EncodeToString bs)"
  by (induction bs) (simp_all add: hexDigit_not_slash [THEN not_sym])

lemma EncodeToString_length: "length (EncodeToString bs) = 2 * length bs"
  by (induction bs) auto

lemma HasSuffix_points_path: "HasSuffix (''/receipts/'' @ ident @ ''/points'') ''/points''"
  by (simp add: HasSuffix_def)

text \<open>
  C7. Round trip. When the body decodes to a receipt \<open>r\<close> and the random source delivers
  its bytes, \<open>ProcessReceipt\<close> answers with the identifier (the hexadecimal encoding of the
  bytes), and \<open>GetPoints\<close> on \<open>/receipts/{id}/points\<close> in the store left by the submission,
  called directly or through \<open>GetPointsHandler\<close>, answers with exactly the points that
  \<open>calculatePoints\<close> computes for \<open>r\<close>; this holds for any store before the submission
  and whatever \<open>points\<close> value the body carried.
\<close>

theorem C7_round_trip:
  "fst (ProcessReceipt P (Inr r) (Inr bytes) receipts) = json_ID (EncodeToString bytes)
   \<and> GetPoints (''/receipts/'' @ EncodeToString bytes @ ''/points'')
        (snd (ProcessReceipt P (Inr r) (Inr bytes) receipts))
      = (json_Points (Points (calculatePoints P r)),
         snd (ProcessReceipt P (Inr r) (Inr bytes) receipts))
   \<and> GetPointsHandler (''/receipts/'' @ EncodeToString bytes @ ''/points'')
        (snd (ProcessReceipt P (Inr r) (Inr bytes) receipts))
      = (json_Points (Points (calculatePoints P r)),
         snd (ProcessReceipt P (Inr r) (Inr bytes) receipts))"
  using Split_points_path [OF EncodeToString_no_slash [of bytes]]
    HasSuffix_points_path [of "EncodeToString bytes"]
  by (simp add: ProcessReceipt_def generateID_def GetPoints_def GetPointsHandler_def Let_def)

text \<open>
  C8. A lookup whose path names an identifier that the store does not hold is answered
  by \<open>http.Error\<close> with status 400 and the message \<open>Invalid receipt ID\<close>, and the store
  after the lookup is the store before it.
\<close>

theorem C8_unknown_identifier:
  assumes "2 < length (Split path (CHR ''/''))"
    and "receipts (Split path (CHR ''/'') ! 2) = None"
  shows "GetPoints path receipts = (http_Error ''Invalid receipt ID'' 400, receipts)"
  using assms by (simp add: GetPoints_def Let_def StatusBadRequest_def)

theorem C8_unknown_identifier_witness:
  "2 < length (Split ''/receipts/7fb1377b-b223-49d9-a31a-5a02701dd310/points'' (CHR ''/''))
   \<and> (Map.empty :: store) (Split ''/receipts/7fb1377b-b223-49d9-a31a-5a02701dd310/points'' (CHR ''/'') ! 2) = None
   \<and> GetPoints ''/receipts/7fb1377b-b223-49d9-a31a-5a02701dd310/points'' Map.empty
       = (http_Error ''Invalid receipt ID'' 400, Map.empty)"
proof -
  let ?path = "''/receipts/7fb1377b-b223-49d9-a31a-5a02701dd310/points''"
  have a: "2 < length (Split ?path (CHR ''/''))" by simp
  have b: "(Map.empty :: store) (Split ?path (CHR ''/'') ! 2) = None" by simp
  from C8_unknown_identifier [OF a b] a b show ?thesis by blast
qed

section \<open>The score as a whole\<close>

lemma calculatePoints_sum:
  "Points (calculatePoints P r)
     = rule1 P r + rule2 P r + rule3 P r + rule4 r + rule5 P r + rule6 r + rule7 r"
  using itemsLoop_acc [of P "Items r" "rule1 P r + rule2 P r + rule3 P r + rule4 r"]
  by (simp add: calculatePoints_def rule5_def Let_def)

lemma sint_add_nowrap:
  fixes a b :: int64
  assumes "0 \<le> sint a" "0 \<le> sint b" "sint a + sint b < 2 ^ 63"
  shows "sint (a + b) = sint a + sint b"
  using assms by (simp add: sint_word_add signed_take_bit_int_eq_self)

lemma sint_add_exact:
  fixes a b :: int64
  assumes "sint a = x" "0 \<le> x" "0 \<le> sint b" "x + sint b < 2 ^ 63"
  shows "sint (a + b) = x + sint b"
  using assms sint_add_nowrap [of a b] by simp

lemma sint_of_nat64:
  assumes "int n < 2 ^ 63"
  shows "sint (of_nat n :: int64) = int n"
  using assms by (simp add: signed_of_nat signed_take_bit_int_eq_self)

lemma itemsSum_nonneg: "0 \<le> itemsSum P items"
  by (induction items) (auto simp: word_sless_alt)

lemma itemsLoop_exact:
  assumes "0 \<le> sint p" "sint p + itemsSum P items < 2 ^ 63"
  shows "sint (itemsLoop P items p) = sint p + itemsSum P items"
  using assms
proof (induction items arbitrary: p)
  case Nil
  then show ?case by simp
next
  case (Cons item items)
  show ?case
  proof (cases "length (TrimSpace (ShortDescription item)) mod 3 = 0 \<and> 0 <s itemPoints P item")
    case True
    then have pos: "0 < sint (itemPoints P item)" by (simp add: word_sless_alt)
    from Cons.prems True itemsSum_nonneg [of P items]
    have small: "sint p + sint (itemPoints P item) < 2 ^ 63" by simp
    have s: "sint (p + itemPoints P item) = sint p + sint (itemPoints P item)"
      using Cons.prems(1) pos small by (intro sint_add_nowrap) simp_all
    have "sint (itemsLoop P items (p + itemPoints P item))
        = sint (p + itemPoints P item) + itemsSum P items"
      using Cons.prems True pos s by (intro Cons.IH) simp_all
    with True s show ?thesis by (simp add: Let_def)
  next
    case False
    with Cons.prems have "sint (itemsLoop P items p) = sint p + itemsSum P items"
      by (intro Cons.IH) (auto split: if_splits)
    with False show ?thesis by (auto simp: Let_def)
  qed
qed

lemma rule2_values: "rule2 P r = 0 \<or> rule2 P r = 50"
  by (simp add: rule2_def Let_def)
lemma rule3_values: "rule3 P r = 0 \<or> rule3 P r = 25"
  by (simp add: rule3_def Let_def)
lemma rule6_values: "rule6 r = 0 \<or> rule6 r = 6"
  by (simp add: rule6_def Let_def)
lemma rule7_values: "rule7 r = 0 \<or> rule7 r = 10"
  by (simp add: rule7_def Let_def)

lemma rule2_nonneg: "0 \<le> sint (rule2 P r)" using rule2_values [of P r] by auto
lemma rule3_nonneg: "0 \<le> sint (rule3 P r)" using rule3_values [of P r] by auto
lemma rule6_nonneg: "0 \<le> sint (rule6 r)" using rule6_values [of r] by auto
lemma rule7_nonneg: "0 \<le> sint (rule7 r)" using rule7_values [of r] by auto

lemma rule4_exact:
  assumes "(int (length (Items r)) div 2) * 5 < 2 ^ 63"
  shows "sint (rule4 r) = (int (length (Items r)) div 2) * 5"
proof -
  let ?n = "int (length (Items r))"
  from assms have n: "?n < 2 ^ 63" by simp
  then have s: "sint (of_nat (length (Items r)) :: int64) = ?n" by (rule sint_of_nat64)
  have d: "?n sdiv 2 = ?n div 2"
    by (simp add: signed_divide_int_def sgn_if)
  have r1: "- (2 ^ 63) \<le> ?n div 2" "?n div 2 < 2 ^ 63" using n by simp_all
  have h: "sint (word_of_int (?n div 2) :: int64) = ?n div 2"
    using r1 by (simp add: sint_sbintrunc' signed_take_bit_int_eq_self)
  have "sint (word_of_int (?n div 2) * 5 :: int64) = (?n div 2) * 5"
    using assms h by (simp add: sint_word_mult signed_take_bit_int_eq_self)
  then show ?thesis by (simp add: rule4_def Let_def s d)
qed

lemma exactPoints_nonneg: "0 \<le> exactPoints P r"
  using rule2_nonneg [of P r] rule3_nonneg [of P r] rule6_nonneg [of r] rule7_nonneg [of r]
    itemsSum_nonneg [of P "Items r"]
  by (simp add: exactPoints_def)

lemma calculatePoints_exact:
  assumes "exactPoints P r < 2 ^ 63"
  shows "sint (Points (calculatePoints P r)) = exactPoints P r"
proof -
  let ?l = "int (length (retailerLoop P (rangeRunes (Retailer r)) []))"
  let ?f = "(int (length (Items r)) div 2) * 5"
  note nn = rule2_nonneg [of P r] rule3_nonneg [of P r] rule6_nonneg [of r] rule7_nonneg [of r]
    itemsSum_nonneg [of P "Items r"]
  have f0: "0 \<le> ?f" by simp
  from assms nn f0 have bound: "?l + sint (rule2 P r) + sint (rule3 P r) + ?f + itemsSum P (Items r)
      + sint (rule6 r) + sint (rule7 r) < 2 ^ 63"
    by (simp add: exactPoints_def)
  have l: "?l < 2 ^ 63" using bound nn f0 by linarith
  have f: "?f < 2 ^ 63" using bound nn by linarith
  have s1: "sint (rule1 P r) = ?l" unfolding rule1_def using l by (rule sint_of_nat64)
  have s4: "sint (rule4 r) = ?f" using f by (rule rule4_exact)
  have l0: "0 \<le> ?l" by simp
  have p2: "sint (rule1 P r + rule2 P r) = ?l + sint (rule2 P r)"
    by (rule sint_add_exact [OF s1]) (use nn bound f0 l0 in linarith)+
  have p3: "sint (rule1 P r + rule2 P r + rule3 P r) = ?l + sint (rule2 P r) + sint (rule3 P r)"
    by (rule sint_add_exact [OF p2]) (use nn bound f0 l0 in linarith)+
  have p4: "sint (rule1 P r + rule2 P r + rule3 P r + rule4 r)
      = ?l + sint (rule2 P r) + sint (rule3 P r) + ?f"
    using sint_add_exact [OF p3, of "rule4 r"] nn bound f0 l0 unfolding s4 by linarith
  have p5: "sint (itemsLoop P (Items r) (rule1 P r + rule2 P r + rule3 P r + rule4 r))
      = ?l + sint (rule2 P r) + sint (rule3 P r) + ?f + itemsSum P (Items r)"
    unfolding p4 [symmetric]
    by (rule itemsLoop_exact) (use p4 nn bound f0 l0 in linarith)+
  have p6: "sint (itemsLoop P (Items r) (rule1 P r + rule2 P r + rule3 P r + rule4 r) + rule6 r)
      = ?l + sint (rule2 P r) + sint (rule3 P r) + ?f + itemsSum P (Items r) + sint (rule6 r)"
    by (rule sint_add_exact [OF p5]) (use nn bound f0 l0 in linarith)+
  have p7: "sint (itemsLoop P (Items r) (rule1 P r + rule2 P r + rule3 P r + rule4 r) + rule6 r + rule7 r)
      = ?l + sint (rule2 P r) + sint (rule3 P r) + ?f + itemsSum P (Items r) + sint (rule6 r)
        + sint (rule7 r)"
    by (rule sint_add_exact [OF p6]) (use nn bound f0 l0 in linarith)+
  then show ?thesis by (simp add: calculatePoints_def Let_def exactPoints_def)
qed

text \<open>
  The claim C9 as stated (the points are never negative) fails: two items of price
  "40000000000000000000.00" with a three-letter description add 8000000000000000000 each, and the 64-bit
  sum wraps to a negative number.
\<close>

theorem C9_negative_points_counterexample:
  "itemPoints amd64 \<lparr>ShortDescription = ''abc'', Price = ''40000000000000000000.00''\<rparr>
     = 8000000000000000000
   \<and> sint (Points (calculatePoints amd64
     \<lparr>Retailer = ''Target'', PurchaseDate = ''2022-01-01'', PurchaseTime = ''13:01'',
      Items = [\<lparr>ShortDescription = ''abc'', Price = ''40000000000000000000.00''\<rparr>,
               \<lparr>ShortDescription = ''abc'', Price = ''40000000000000000000.00''\<rparr>],
      Total = ''80000000000000000000.00'', Points = 0\<rparr>)) < 0"
  by code_simp

text \<open>
  C9, amended. Every rule adds a non-negative amount (rule 5 adds an \<open>itemPoints\<close> only
  when it is strictly positive), so the exact sum of the amounts is non-negative; and
  whenever that exact sum is below \<open>2 ^ 63\<close>, no addition wraps, the computed points are
  the exact sum, and they are non-negative.
\<close>

theorem C9_nonnegative_without_overflow:
  "0 \<le> sint (rule2 P r) \<and> 0 \<le> sint (rule3 P r) \<and> 0 \<le> itemsSum P (Items r)
   \<and> 0 \<le> sint (rule6 r) \<and> 0 \<le> sint (rule7 r) \<and> 0 \<le> exactPoints P r
   \<and> (exactPoints P r < 2 ^ 63 \<longrightarrow>
        sint (Points (calculatePoints P r)) = exactPoints P r
        \<and> 0 \<le> sint (Points (calculatePoints P r)))"
  using rule2_nonneg [of P r] rule3_nonneg [of P r] rule6_nonneg [of r] rule7_nonneg [of r]
    itemsSum_nonneg [of P "Items r"] exactPoints_nonneg [of P r] calculatePoints_exact [of P r]
  by simp

theorem C9_nonnegative_without_overflow_witness:
  "exactPoints amd64
     \<lparr>Retailer = ''Target'', PurchaseDate = ''2022-01-01'', PurchaseTime = ''13:01'',
      Items = [\<lparr>ShortDescription = ''Mountain Dew 12PK'', Price = ''6.49''\<rparr>],
      Total = ''6.49'', Points = 0\<rparr> < 2 ^ 63
   \<and> 0 \<le> sint (Points (calculatePoints amd64
     \<lparr>Retailer = ''Target'', PurchaseDate = ''2022-01-01'', PurchaseTime = ''13:01'',
      Items = [\<lparr>ShortDescription = ''Mountain Dew 12PK'', Price = ''6.49''\<rparr>],
      Total = ''6.49'', Points = 0\<rparr>))"
proof -
  let ?r = "\<lparr>Retailer = ''Target'', PurchaseDate = ''2022-01-01'', PurchaseTime = ''13:01'',
      Items = [\<lparr>ShortDescription = ''Mountain Dew 12PK'', Price = ''6.49''\<rparr>],
      Total = ''6.49'', Points = 0\<rparr>"
  have e: "exactPoints amd64 ?r = 12" by code_simp
  then have h: "exactPoints amd64 ?r < 2 ^ 63" by simp
  from C9_nonnegative_without_overflow [of amd64 ?r] h
  have "0 \<le> sint (Points (calculatePoints amd64 ?r))" by blast
  with h show ?thesis by blast
qed

text \<open>
  The claim C1 as stated (14 points for the Target receipt) fails: the description
  "Mountain Dew 12PK" has 17 bytes, not 18, so rule 5 adds nothing.
\<close>

theorem C1_target_receipt_counterexample:
  "length (TrimSpace ''Mountain Dew 12PK'') = 17
   \<and> Points (calculatePoints amd64
     \<lparr>Retailer = ''Target'', PurchaseDate = ''2022-01-01'', PurchaseTime = ''13:01'',
      Items = [\<lparr>ShortDescription = ''Mountain Dew 12PK'', Price = ''6.49''\<rparr>],
      Total = ''6.49'', Points = 0\<rparr>) \<noteq> 14"
  by code_simp

text \<open>
  C1, amended. On every platform the Target receipt scores exactly 12 points: 6 for the
  six letters of the retailer name and 6 for the odd day; the total 6.49 is neither round
  nor a multiple of 0.25, one item makes no pair, the trimmed description has length 17,
  which 3 does not divide, and 13:01 is outside the afternoon window.
\<close>

theorem C1_target_receipt_scores_12:
  "Points (calculatePoints P
     \<lparr>Retailer = ''Target'', PurchaseDate = ''2022-01-01'', PurchaseTime = ''13:01'',
      Items = [\<lparr>ShortDescription = ''Mountain Dew 12PK'', Price = ''6.49''\<rparr>],
      Total = ''6.49'', Points = 0\<rparr>) = 12
   \<and> rule1 P
     \<lparr>Retailer = ''Target'', PurchaseDate = ''2022-01-01'', PurchaseTime = ''13:01'',
      Items = [\<lparr>ShortDescription = ''Mountain Dew 12PK'', Price = ''6.49''\<rparr>],
      Total = ''6.49'', Points = 0\<rparr> = 6
   \<and> rule5 P
     \<lparr>Retailer = ''Target'', PurchaseDate = ''2022-01-01'', PurchaseTime = ''13:01'',
      Items = [\<lparr>ShortDescription = ''Mountain Dew 12PK'', Price = ''6.49''\<rparr>],
      Total = ''6.49'', Points = 0\<rparr> = 0
   \<and> rule6
     \<lparr>Retailer = ''Target'', PurchaseDate = ''2022-01-01'', PurchaseTime = ''13:01'',
      Items = [\<lparr>ShortDescription = ''Mountain Dew 12PK'', Price = ''6.49''\<rparr>],
      Total = ''6.49'', Points = 0\<rparr> = 6"
  by code_simp

end
